theory Spec2Isabelle
  imports Main "HOL-Library.Word"
begin

unbundle bit_operations_syntax

section \<open>Data model of package mtp (device\_direct.go)\<close>

type_synonym byte = "8 word"

text \<open>
  The logical protocol unit. Field order and widths as the code uses them:
  \<open>Code\<close> is written into the 16-bit header field, \<open>TransactionID\<close> and
  \<open>SessionID\<close> are 32-bit, \<open>Param\<close> is a slice of 32-bit words.
\<close>

record Container =
  Code :: "16 word"
  SessionID :: "32 word"
  TransactionID :: "32 word"
  Param :: "32 word list"

text \<open>
  Modelled from the spec: the type \<open>usbBulkHeader\<close> is declared outside
  device\_direct.go. Its wire layout is \<open>length:u32, type:u16, code:u16,
  transactionId:u32\<close>, 12 bytes, little-endian.
\<close>

record usbBulkHeader =
  Length :: "32 word"
  Type :: "16 word"
  hCode :: "16 word"
  hTransactionID :: "32 word"

text \<open>
  Modelled from the spec: the constants \<open>usbHdrLen\<close>, the container types and the
  limit of five parameters (the array \<open>usbBulkContainer.Param\<close>) are declared
  outside device\_direct.go.
\<close>

definition usbHdrLen :: nat where
  "usbHdrLen = 12"

definition maxParams :: nat where
  "maxParams = 5"

definition USB_CONTAINER_COMMAND :: "16 word" where
  "USB_CONTAINER_COMMAND = 1"

definition USB_CONTAINER_DATA :: "16 word" where
  "USB_CONTAINER_DATA = 2"

definition USB_CONTAINER_RESPONSE :: "16 word" where
  "USB_CONTAINER_RESPONSE = 3"

text \<open>
  Package constants whose values neither the file nor the spec gives. They are
  parameters of the model, carried in the device record.
\<close>

record pkg_consts =
  rwBufSize :: nat
  RC_OK :: "16 word"
  RC_SessionAlreadyOpened :: "16 word"
  OC_CloseSession :: "16 word"

record sessionData =
  tid :: "32 word"
  sid :: "32 word"

subsection \<open>Errors\<close>

text \<open>
  \<open>SyncError\<close> and \<open>RCError\<close> are the package's error types, \<open>UsbError\<close> is
  \<open>usb.Error\<close> of the transport library. The other constructors are the plain
  errors made by \<open>fmt.Errorf\<close> and by package io; \<open>RunTransaction\<close> tells them
  apart from the first two by a type assertion. \<open>Panic\<close> is a Go run-time panic,
  which no caller of this file recovers: every caller passes it on.
\<close>

datatype sync_reason =
    WrongType "16 word"
  | UnexpectedData "16 word"
  | TransactionIDMismatch "32 word" "32 word"

datatype panic_reason = IndexOutOfRange | SliceBounds | DivideByZero

datatype error =
    SyncError sync_reason
  | UsbError int
  | RCError "16 word"
  | HeaderLength int nat
  | ErrEOF
  | ErrUnexpectedEOF
  | ErrShortWrite
  | NotOpen "16 word"
  | DeviceNotOpen
  | AlreadyOpen
  | FailedToOpen error
  | FailedToClaim error
  | NoMTPExtensions string
  | NoMTPInterface
  | OpeningAfterReset error
  | OpenSessionAfterReset error
  | Panic panic_reason

fun isSyncError :: "error \<Rightarrow> bool" where
  "isSyncError (SyncError _) = True"
| "isSyncError _ = False"

fun isUsbError :: "error \<Rightarrow> bool" where
  "isUsbError (UsbError _) = True"
| "isUsbError _ = False"

fun isPanic :: "error \<Rightarrow> bool" where
  "isPanic (Panic _) = True"
| "isPanic _ = False"

definition panicked :: "error option \<Rightarrow> bool" where
  "panicked err = (case err of None \<Rightarrow> False | Some e \<Rightarrow> isPanic e)"

subsection \<open>The transport collaborator\<close>

text \<open>
  The USB library is outside the repository. Its state is a script of what the device
  will deliver: \<open>inq\<close> holds the outcome of each coming IN transfer (an error, or the
  bytes the device sends), \<open>outq\<close> the outcome of each coming OUT transfer, \<open>sent\<close>
  logs the payload of every OUT transfer and \<open>events\<close> every control operation.
  An IN transfer on an exhausted script times out, and one that delivers more bytes
  than the buffer holds is cut to the buffer. The handle itself is the flag \<open>h\<close>
  of the device record (\<open>d.h != nil\<close>); \<open>runTransaction\<close> is reached only
  through \<open>RunTransaction\<close> and \<open>Close\<close>, which both test it first.
\<close>

datatype usb_event =
    EvOpen
  | EvClaimInterface
  | EvReleaseInterface
  | EvReset
  | EvCloseHandle
  | EvSleep nat

record usb_bus =
  maxPacketSizeSend :: nat
  maxPacketSizeFetch :: nat
  inq :: "(int + byte list) list"
  outq :: "int option list"
  sent :: "byte list list"
  events :: "usb_event list"
  openResult :: "int option"
  claimResult :: "int option"
  ifaceString :: "int + string"

definition LIBUSB_ERROR_TIMEOUT :: int where
  "LIBUSB_ERROR_TIMEOUT = -7"

record DeviceDirect =
  h :: bool
  claimed :: bool
  InterfaceStringIndex :: byte
  Timeout :: int
  SeparateHeader :: bool
  session :: "sessionData option"
  bus :: usb_bus
  pkg :: pkg_consts

definition fetchMaxPacketSize :: "DeviceDirect \<Rightarrow> nat" where
  "fetchMaxPacketSize d = maxPacketSizeFetch (bus d)"

definition sendMaxPacketSize :: "DeviceDirect \<Rightarrow> nat" where
  "sendMaxPacketSize d = maxPacketSizeSend (bus d)"

text \<open>
  \<open>d.h.BulkTransfer(d.fetchEP, buf, d.Timeout)\<close> with a buffer of \<open>len\<close> bytes:
  the bytes received (at most \<open>len\<close>), the error, and the device afterwards.
\<close>

definition BulkTransferIn :: "DeviceDirect \<Rightarrow> nat \<Rightarrow> byte list \<times> error option \<times> DeviceDirect" where
  "BulkTransferIn d len =
     (case inq (bus d) of
        [] \<Rightarrow> ([], Some (UsbError LIBUSB_ERROR_TIMEOUT), d)
      | Inl e # q \<Rightarrow> ([], Some (UsbError e), d\<lparr>bus := (bus d)\<lparr>inq := q\<rparr>\<rparr>)
      | Inr bs # q \<Rightarrow> (take len bs, None, d\<lparr>bus := (bus d)\<lparr>inq := q\<rparr>\<rparr>))"

text \<open>
  \<open>d.h.BulkTransfer(d.sendEP, data, d.Timeout)\<close>: the number of bytes transferred,
  the error, and the device afterwards.
\<close>

definition BulkTransferOut :: "DeviceDirect \<Rightarrow> byte list \<Rightarrow> nat \<times> error option \<times> DeviceDirect" where
  "BulkTransferOut d data =
     (let b = (bus d)\<lparr>sent := sent (bus d) @ [data]\<rparr> in
      case outq b of
        [] \<Rightarrow> (length data, None, d\<lparr>bus := b\<rparr>)
      | None # q \<Rightarrow> (length data, None, d\<lparr>bus := b\<lparr>outq := q\<rparr>\<rparr>)
      | Some e # q \<Rightarrow> (0, Some (UsbError e), d\<lparr>bus := b\<lparr>outq := q\<rparr>\<rparr>))"

section \<open>Container codec\<close>

text \<open>Little-endian byte order, as \<open>encoding/binary\<close> writes and reads it.\<close>

definition put16 :: "16 word \<Rightarrow> byte list" where
  "put16 w = [ucast w, ucast (drop_bit 8 w)]"

definition put32 :: "32 word \<Rightarrow> byte list" where
  "put32 w = [ucast w, ucast (drop_bit 8 w), ucast (drop_bit 16 w), ucast (drop_bit 24 w)]"

text \<open>\<open>byteOrder.Uint16\<close> and \<open>byteOrder.Uint32\<close>; \<open>None\<close> where Go panics on a short slice.\<close>

fun Uint16 :: "byte list \<Rightarrow> 16 word option" where
  "Uint16 (b0 # b1 # _) = Some (ucast b0 OR push_bit 8 (ucast b1))"
| "Uint16 _ = None"

fun Uint32 :: "byte list \<Rightarrow> 32 word option" where
  "Uint32 (b0 # b1 # b2 # b3 # _) =
     Some (ucast b0 OR push_bit 8 (ucast b1) OR push_bit 16 (ucast b2) OR push_bit 24 (ucast b3))"
| "Uint32 _ = None"

text \<open>\<open>binary.Write(buf, binary.LittleEndian, hdr)\<close> for a \<open>usbBulkHeader\<close>.\<close>

definition writeHeader :: "usbBulkHeader \<Rightarrow> byte list" where
  "writeHeader hdr = put32 (Length hdr) @ put16 (Type hdr) @ put16 (hCode hdr) @ put32 (hTransactionID hdr)"

text \<open>
  \<open>binary.Read(buf, binary.LittleEndian, header)\<close>: the header and the unread rest of
  the buffer, \<open>io.EOF\<close> on an empty buffer, \<open>io.ErrUnexpectedEOF\<close> on fewer than 12
  bytes.
\<close>

definition readHeader :: "byte list \<Rightarrow> error + (usbBulkHeader \<times> byte list)" where
  "readHeader bs =
     (if bs = [] then Inl ErrEOF
      else if length bs < usbHdrLen then Inl ErrUnexpectedEOF
      else Inr (\<lparr>Length = the (Uint32 bs),
                 Type = the (Uint16 (drop 4 bs)),
                 hCode = the (Uint16 (drop 6 bs)),
                 hTransactionID = the (Uint32 (drop 8 bs))\<rparr>, drop usbHdrLen bs))"

definition zeroHeader :: usbBulkHeader where
  "zeroHeader = \<lparr>Length = 0, Type = 0, hCode = 0, hTransactionID = 0\<rparr>"

definition sendReq :: "DeviceDirect \<Rightarrow> Container \<Rightarrow> error option \<times> DeviceDirect" where
  "sendReq d req =
     (if length (Param req) > maxParams then (Some (Panic IndexOutOfRange), d)
      else
        let c = \<lparr>Length = word_of_nat (usbHdrLen + 4 * length (Param req)),
                 Type = USB_CONTAINER_COMMAND,
                 hCode = Code req,
                 hTransactionID = TransactionID req\<rparr>;
            buf = writeHeader c @ concat (map put32 (Param req))
        in case BulkTransferOut d buf of (n, err, d') \<Rightarrow> (err, d'))"

text \<open>
  \<open>fetchPacket\<close>: one IN transfer into a buffer of the fetch endpoint's packet size;
  the header is split off and the remainder returned. On an error the caller's header
  is left as it was.
\<close>

definition fetchPacket :: "DeviceDirect \<Rightarrow> (error + usbBulkHeader \<times> byte list) \<times> DeviceDirect" where
  "fetchPacket d =
     (case BulkTransferIn d (fetchMaxPacketSize d) of
        (bs, Some e, d') \<Rightarrow> (Inl e, d')
      | (bs, None, d') \<Rightarrow>
          (case readHeader bs of
             Inl e \<Rightarrow> (Inl e, d')
           | Inr (hdr, rest) \<Rightarrow> (Inr (hdr, rest), d')))"

text \<open>
  The parameter loop of \<open>decodeRep\<close>: \<open>byteOrder.Uint32(rest[4*i:])\<close> for
  i = 0, ..., nParam - 1, \<open>None\<close> if a read runs beyond the slice.
\<close>

definition readParams :: "byte list \<Rightarrow> nat \<Rightarrow> 32 word list option" where
  "readParams rest nParam = those (map (\<lambda>i. Uint32 (drop (4 * i) rest)) [0..<nParam])"

text \<open>Go's integer division truncates towards zero.\<close>

definition quot :: "int \<Rightarrow> int \<Rightarrow> int" where
  "quot a b = sgn a * sgn b * (\<bar>a\<bar> div \<bar>b\<bar>)"

definition decodeRep :: "DeviceDirect \<Rightarrow> usbBulkHeader \<Rightarrow> byte list \<Rightarrow> Container \<Rightarrow> error option \<times> Container" where
  "decodeRep d hdr rest rep =
     (if Type hdr \<noteq> USB_CONTAINER_RESPONSE then (Some (SyncError (WrongType (Type hdr))), rep)
      else
        let rep1 = rep\<lparr>Code := hCode hdr, TransactionID := hTransactionID hdr\<rparr>;
            restLen = int (unat (Length hdr)) - int usbHdrLen
        in if restLen > int (length rest) then (Some (HeaderLength restLen (length rest)), rep1)
           else
             let nParam = quot restLen 4 in
             (case readParams rest (nat nParam) of
                None \<Rightarrow> (Some (Panic SliceBounds), rep1)
              | Some ps \<Rightarrow>
                  let rep2 = rep1\<lparr>Param := Param rep1 @ ps\<rparr>
                  in if Code rep2 \<noteq> RC_OK (pkg d) then (Some (RCError (Code rep2)), rep2)
                     else (None, rep2)))"

subsection \<open>Readers and writers\<close>

text \<open>
  The \<open>io.Writer\<close> a caller passes as \<open>dest\<close>: a buffer that appends what is
  written, with an optional capacity beyond which \<open>Write\<close> is short and fails.
  \<open>NullWriter\<close> is the package's writer that discards everything.
\<close>

datatype writer = NullWriter | BufWriter "byte list" "nat option"

fun Write :: "writer \<Rightarrow> byte list \<Rightarrow> nat \<times> error option \<times> writer" where
  "Write NullWriter p = (length p, None, NullWriter)"
| "Write (BufWriter buf None) p = (length p, None, BufWriter (buf @ p) None)"
| "Write (BufWriter buf (Some c)) p =
     (if length buf + length p \<le> c then (length p, None, BufWriter (buf @ p) (Some c))
      else (c - length buf, Some ErrShortWrite, BufWriter (buf @ take (c - length buf) p) (Some c)))"

text \<open>
  The \<open>io.Reader\<close> a caller passes as \<open>src\<close>: the bytes still to be read.
  \<open>Read\<close> into a buffer of \<open>len\<close> bytes gives \<open>io.EOF\<close> at the end of the
  data; \<open>io.CopyN\<close> copies nothing for a count that is not positive.
\<close>

type_synonym reader = "byte list"

definition Read :: "reader \<Rightarrow> nat \<Rightarrow> byte list \<times> error option \<times> reader" where
  "Read r len = (if r = [] then ([], Some ErrEOF, r) else (take len r, None, drop len r))"

definition CopyN :: "reader \<Rightarrow> int \<Rightarrow> byte list \<times> reader" where
  "CopyN r n = (if n \<le> 0 then ([], r) else (take (nat n) r, drop (nat n) r))"

subsection \<open>Bulk read\<close>

text \<open>
  The loop of \<open>bulkRead\<close>. The result is the device, the writer, the byte count n,
  \<open>lastRead\<close> and the function's \<open>err\<close> when the loop is left. The error of
  \<open>w.Write\<close> is assigned to a variable declared inside the \<open>if\<close> block, so it
  leaves the loop and is then lost.
\<close>

function bulkReadLoop :: "DeviceDirect \<Rightarrow> writer \<Rightarrow> int \<Rightarrow> DeviceDirect \<times> writer \<times> int \<times> nat \<times> error option" where
  "bulkReadLoop d w n =
     (case BulkTransferIn d (rwBufSize (pkg d)) of
        (bs, Some e, d') \<Rightarrow> (d', w, n, length bs, Some e)
      | (bs, None, d') \<Rightarrow>
          (let lastRead = length bs in
           if lastRead > 0 then
             (case Write w bs of
                (wn, Some e, w') \<Rightarrow> (d', w', n + int wn, lastRead, None)
              | (wn, None, w') \<Rightarrow>
                  if lastRead < rwBufSize (pkg d) then (d', w', n + int wn, lastRead, None)
                  else bulkReadLoop d' w' (n + int wn))
           else if lastRead < rwBufSize (pkg d) then (d', w, n, lastRead, None)
           else bulkReadLoop d' w n))"
  by pat_completeness auto
termination
  by (relation "measure (\<lambda>(d, w, n). length (inq (bus d)))")
    (auto simp add: BulkTransferIn_def split: list.splits sum.splits)

text \<open>
  \<open>bulkRead\<close>: the byte count, the last packet, the error, the device and the writer.
  When \<open>lastRead\<close> is a multiple of the fetch packet size, one more transfer is made
  and what it read is returned for the caller to inspect.
\<close>

definition bulkRead :: "DeviceDirect \<Rightarrow> writer \<Rightarrow> int \<times> byte list \<times> error option \<times> DeviceDirect \<times> writer" where
  "bulkRead d w =
     (case bulkReadLoop d w 0 of
        (d1, w1, n, lastRead, err) \<Rightarrow>
          let packetSize = fetchMaxPacketSize d1 in
          if packetSize = 0 then (n, [], Some (Panic DivideByZero), d1, w1)
          else if lastRead mod packetSize = 0 then
            (case BulkTransferIn d1 (rwBufSize (pkg d1)) of
               (bs, err2, d2) \<Rightarrow> (n, bs, err2, d2, w1))
          else (n, [], err, d1, w1))"

subsection \<open>Bulk write\<close>

text \<open>
  The loop of \<open>bulkWrite\<close>, with the variables it updates: the remaining size, the
  count n, \<open>lastTransfer\<close> and \<open>err\<close>.
\<close>

function bulkWriteLoop :: "DeviceDirect \<Rightarrow> reader \<Rightarrow> int \<Rightarrow> int \<Rightarrow> nat \<Rightarrow> error option
    \<Rightarrow> DeviceDirect \<times> reader \<times> int \<times> nat \<times> error option" where
  "bulkWriteLoop d r sz n lastTransfer err =
     (if sz > 0 then
        (let toread = (if int (rwBufSize (pkg d)) > sz then nat sz else rwBufSize (pkg d)) in
         case Read r toread of
           (bs, Some e, r') \<Rightarrow> (d, r', n, lastTransfer, Some e)
         | (bs, None, r') \<Rightarrow>
             (case BulkTransferOut d bs of
                (lt, err', d') \<Rightarrow>
                  if err' \<noteq> None \<or> lt = 0 then (d', r', n + int lt, lt, err')
                  else bulkWriteLoop d' r' (sz - int (length bs)) (n + int lt) lt err'))
      else (d, r, n, lastTransfer, err))"
  by pat_completeness auto
termination
  by (relation "measure (\<lambda>(d, r, sz, n, lastTransfer, err). nat sz)")
    (auto simp add: BulkTransferOut_def Let_def split: list.splits option.splits)

text \<open>
  The end of \<open>bulkWrite\<close>: the loop, then a zero-length transfer when
  \<open>lastTransfer\<close> is a multiple of the send packet sz.
\<close>

definition bulkWriteRest :: "DeviceDirect \<Rightarrow> reader \<Rightarrow> int \<Rightarrow> int \<Rightarrow> error option
    \<Rightarrow> int \<times> error option \<times> DeviceDirect \<times> reader" where
  "bulkWriteRest d r sz n err =
     (case bulkWriteLoop d r sz n 0 err of
        (d2, r2, n2, lastTransfer, err2) \<Rightarrow>
          let packetSize = sendMaxPacketSize d in
          if packetSize = 0 then (n2, Some (Panic DivideByZero), d2, r2)
          else if lastTransfer mod packetSize = 0 then
            (case BulkTransferOut d2 [] of (m, e, d3) \<Rightarrow> (n2, err2, d3, r2))
          else (n2, err2, d2, r2))"

text \<open>\<open>bulkWrite\<close>: the number of non-header bytes written, the error, the device and the reader.\<close>

definition bulkWrite :: "DeviceDirect \<Rightarrow> usbBulkHeader option \<Rightarrow> reader \<Rightarrow> int
    \<Rightarrow> int \<times> error option \<times> DeviceDirect \<times> reader" where
  "bulkWrite d hdr r sz =
     (let packetSize = sendMaxPacketSize d in
      case hdr of
        None \<Rightarrow> bulkWriteRest d r sz 0 None
      | Some hd0 \<Rightarrow>
          let hd1 = hd0\<lparr>Length := (if sz + int usbHdrLen > 0xFFFFFFFF then 0xFFFFFFFF
                                     else word_of_int (sz + int usbHdrLen))\<rparr>
          in if SeparateHeader d \<and> packetSize < usbHdrLen then (0, Some (Panic SliceBounds), d, r)
             else
               let lenPacket = (if SeparateHeader d then usbHdrLen else packetSize);
                   cpSize0 = int lenPacket - int usbHdrLen;
                   cpSize = (if cpSize0 > sz then sz else cpSize0)
               in case CopyN r cpSize of
                    (copied, r1) \<Rightarrow>
                      (case BulkTransferOut d (writeHeader hd1 @ copied) of
                         (m, Some e, d1) \<Rightarrow> (cpSize, Some e, d1, r1)
                       | (m, None, d1) \<Rightarrow> bulkWriteRest d1 r1 (sz - cpSize) cpSize None))"

section \<open>The transaction engine\<close>

text \<open>Lines 310 to 314 of \<open>runTransaction\<close>: the IDs of the request and the counter.\<close>

definition assignIDs :: "DeviceDirect \<Rightarrow> Container \<Rightarrow> DeviceDirect \<times> Container" where
  "assignIDs d req =
     (case session d of
        None \<Rightarrow> (d, req)
      | Some s \<Rightarrow> (d\<lparr>session := Some (s\<lparr>tid := tid s + 1\<rparr>)\<rparr>,
                   req\<lparr>SessionID := sid s, TransactionID := tid s\<rparr>))"

text \<open>Lines 327 to 339: the data-out phase, when \<open>src\<close> is not nil.\<close>

definition dataOutPhase :: "DeviceDirect \<Rightarrow> Container \<Rightarrow> reader option \<Rightarrow> int \<Rightarrow> error option \<times> DeviceDirect" where
  "dataOutPhase d req src writeSize =
     (case src of
        None \<Rightarrow> (None, d)
      | Some r \<Rightarrow>
          let hdr = \<lparr>Length = word_of_int writeSize, Type = USB_CONTAINER_DATA,
                     hCode = Code req, hTransactionID = TransactionID req\<rparr>
          in case bulkWrite d (Some hdr) r writeSize of (n, err, d', r') \<Rightarrow> (err, d'))"

text \<open>What the caller's \<open>dest\<close> holds afterwards: nothing when it passed nil.\<close>

definition destAfter :: "writer option \<Rightarrow> writer \<Rightarrow> writer option" where
  "destAfter dest w = (case dest of None \<Rightarrow> None | Some w0 \<Rightarrow> Some w)"

text \<open>
  Lines 347 to 382: the data-in phase after the first packet (header \<open>hdr\<close>, payload
  \<open>rest\<close>). An early return is \<open>Inl\<close>; otherwise the header and bytes handed to
  \<open>decodeRep\<close> and the flag \<open>unexpectedData\<close>. A failed \<open>binary.Read\<close> or
  \<open>fetchPacket\<close> leaves the fresh zero header, and the error is overwritten.
\<close>

definition dataInPhase :: "DeviceDirect \<Rightarrow> writer option \<Rightarrow> usbBulkHeader \<Rightarrow> byte list \<Rightarrow> nat
    \<Rightarrow> (error \<times> DeviceDirect \<times> writer option)
        + (usbBulkHeader \<times> byte list \<times> bool \<times> DeviceDirect \<times> writer option)" where
  "dataInPhase d dest hdr rest fetchPacketSize =
     (if Type hdr = USB_CONTAINER_DATA then
        (let w0 = (case dest of None \<Rightarrow> NullWriter | Some w \<Rightarrow> w);
             unexpectedData = (dest = None);
             w1 = snd (snd (Write w0 rest))
         in case (if length rest + usbHdrLen = fetchPacketSize
                  then (case bulkRead d w1 of (n, fp, err, d', w') \<Rightarrow> (fp, err, d', w'))
                  else ([], None, d, w1)) of
              (finalPacket, Some e, d', w') \<Rightarrow> Inl (e, d', destAfter dest w')
            | (finalPacket, None, d', w') \<Rightarrow>
                if length finalPacket > 0 then
                  (case readHeader finalPacket of
                     Inl e \<Rightarrow> Inr (zeroHeader, finalPacket, unexpectedData, d', destAfter dest w')
                   | Inr (hdr', unread) \<Rightarrow> Inr (hdr', finalPacket, unexpectedData, d', destAfter dest w'))
                else
                  (case fetchPacket d' of
                     (Inl e, d'') \<Rightarrow> Inr (zeroHeader, [], unexpectedData, d'', destAfter dest w')
                   | (Inr (hdr', rest'), d'') \<Rightarrow> Inr (hdr', rest', unexpectedData, d'', destAfter dest w')))
      else Inr (hdr, rest, False, d, dest))"

text \<open>
  Lines 384 to 400: decoding, the unexpected-data check and the correlation of IDs. A
  panic raised while decoding would leave the function before any of the checks.
\<close>

definition finishTransaction :: "DeviceDirect \<Rightarrow> Container \<Rightarrow> Container \<Rightarrow> usbBulkHeader \<Rightarrow> byte list \<Rightarrow> bool
    \<Rightarrow> error option \<times> Container" where
  "finishTransaction d req rep hdr rest unexpectedData =
     (case decodeRep d hdr rest rep of
        (err, rep1) \<Rightarrow>
          if panicked err then (err, rep1)
          else if unexpectedData then (Some (SyncError (UnexpectedData (Code req))), rep1)
          else if err \<noteq> None then (err, rep1)
          else if session d \<noteq> None \<and> TransactionID rep1 \<noteq> TransactionID req
            then (Some (SyncError (TransactionIDMismatch (TransactionID rep1) (TransactionID req))), rep1)
          else (None, rep1\<lparr>SessionID := SessionID req\<rparr>))"

text \<open>
  \<open>runTransaction\<close>: the error, the device, the request and the response as the
  call leaves them, and the caller's sink.
\<close>

definition runTransaction :: "DeviceDirect \<Rightarrow> Container \<Rightarrow> Container \<Rightarrow> writer option \<Rightarrow> reader option \<Rightarrow> int
    \<Rightarrow> error option \<times> DeviceDirect \<times> Container \<times> Container \<times> writer option" where
  "runTransaction d req rep dest src writeSize =
     (case assignIDs d req of
        (d0, req0) \<Rightarrow>
          (case sendReq d0 req0 of
             (Some e, d1) \<Rightarrow> (Some e, d1, req0, rep, dest)
           | (None, d1) \<Rightarrow>
               (case dataOutPhase d1 req0 src writeSize of
                  (Some e, d2) \<Rightarrow> (Some e, d2, req0, rep, dest)
                | (None, d2) \<Rightarrow>
                    let fetchPacketSize = fetchMaxPacketSize d2 in
                    (case fetchPacket d2 of
                       (Inl e, d3) \<Rightarrow> (Some e, d3, req0, rep, dest)
                     | (Inr (hdr, rest), d3) \<Rightarrow>
                         (case dataInPhase d3 dest hdr rest fetchPacketSize of
                            Inl (e, d4, dest') \<Rightarrow> (Some e, d4, req0, rep, dest')
                          | Inr (hdr', rest', unexpectedData, d4, dest') \<Rightarrow>
                              (case finishTransaction d4 req0 rep hdr' rest' unexpectedData of
                                 (err, rep') \<Rightarrow> (err, d4, req0, rep', dest')))))))"

section \<open>Connection teardown and the checked transaction\<close>

definition logEvent :: "usb_event \<Rightarrow> DeviceDirect \<Rightarrow> DeviceDirect" where
  "logEvent ev d = d\<lparr>bus := (bus d)\<lparr>events := events (bus d) @ [ev]\<rparr>\<rparr>"

definition zeroContainer :: Container where
  "zeroContainer = \<lparr>Code = 0, SessionID = 0, TransactionID = 0, Param = []\<rparr>"

text \<open>
  \<open>Close\<close>: with a session, a close-session transaction through \<open>runTransaction\<close>
  and a reset if it fails; then the interface is released, the handle closed and
  \<open>d.h\<close> set to nil. The field \<open>session\<close> is not touched here.
\<close>

definition Close :: "DeviceDirect \<Rightarrow> error option \<times> DeviceDirect" where
  "Close d =
     (if \<not> h d then (None, d)
      else
        case (if session d \<noteq> None then
                (case runTransaction d (zeroContainer\<lparr>Code := OC_CloseSession (pkg d)\<rparr>) zeroContainer None None 0 of
                   (err, d1, x) \<Rightarrow>
                     if panicked err then Inl (err, d1)
                     else if err \<noteq> None then Inr (logEvent EvReset d1)
                     else Inr d1)
              else Inr d) of
          Inl (err, d1) \<Rightarrow> (err, d1)
        | Inr d1 \<Rightarrow>
            let d2 = (if claimed d1 then logEvent EvReleaseInterface d1 else d1);
                d3 = logEvent EvCloseHandle d2
            in (None, d3\<lparr>h := False\<rparr>))"

text \<open>
  \<open>RunTransaction\<close>: refuses a device that is not open, and closes the connection
  when \<open>runTransaction\<close> fails with a \<open>SyncError\<close> or a \<open>usb.Error\<close>.
\<close>

definition RunTransaction :: "DeviceDirect \<Rightarrow> Container \<Rightarrow> Container \<Rightarrow> writer option \<Rightarrow> reader option \<Rightarrow> int
    \<Rightarrow> error option \<times> DeviceDirect \<times> Container \<times> Container \<times> writer option" where
  "RunTransaction d req rep dest src writeSize =
     (if \<not> h d then (Some (NotOpen (Code req)), d, req, rep, dest)
      else
        case runTransaction d req rep dest src writeSize of
          (None, d1, req1, rep1, dest1) \<Rightarrow> (None, d1, req1, rep1, dest1)
        | (Some e, d1, req1, rep1, dest1) \<Rightarrow>
            if isUsbError e \<or> isSyncError e then
              (case Close d1 of
                 (ce, d2) \<Rightarrow>
                   if panicked ce then (ce, d2, req1, rep1, dest1)
                   else (Some e, d2, req1, rep1, dest1))
            else (Some e, d1, req1, rep1, dest1))"

section \<open>Opening and configuring\<close>

text \<open>
  Functions of the package that \<open>Open\<close> and \<open>Configure\<close> call and that are defined
  outside device\_direct.go. They are parameters of the model: each takes the device and
  returns what the Go function returns together with the device afterwards.
\<close>

record helpers =
  OpenSession :: "DeviceDirect \<Rightarrow> error option \<times> DeviceDirect"
  CloseSession :: "DeviceDirect \<Rightarrow> error option \<times> DeviceDirect"
  GetDeviceInfo :: "DeviceDirect \<Rightarrow> string \<times> DeviceDirect"

text \<open>\<open>strings.Contains\<close>.\<close>

definition Contains :: "string \<Rightarrow> string \<Rightarrow> bool" where
  "Contains s substr = list_ex (\<lambda>i. take (length substr) (drop i s) = substr) [0..<Suc (length s)]"

definition claim :: "DeviceDirect \<Rightarrow> error option \<times> DeviceDirect" where
  "claim d =
     (if \<not> h d then (Some DeviceNotOpen, d)
      else
        let d1 = logEvent EvClaimInterface d in
        case claimResult (bus d1) of
          Some e \<Rightarrow> (Some (FailedToClaim (UsbError e)), d1)
        | None \<Rightarrow> (None, d1\<lparr>claimed := True\<rparr>))"

text \<open>
  \<open>d.Close()\<close> in a place where its result is dropped and \<open>err\<close> is returned.
\<close>

definition closeAndReturn :: "DeviceDirect \<Rightarrow> error \<Rightarrow> error option \<times> DeviceDirect" where
  "closeAndReturn d err =
     (case Close d of (ce, d') \<Rightarrow> if panicked ce then (ce, d') else (Some err, d'))"

definition Open :: "helpers \<Rightarrow> DeviceDirect \<Rightarrow> error option \<times> DeviceDirect" where
  "Open ops d =
     (let d0 = (if Timeout d = 0 then d\<lparr>Timeout := 2000\<rparr> else d) in
      if h d0 then (Some AlreadyOpen, d0)
      else
        let d1 = logEvent EvOpen d0 in
        case openResult (bus d1) of
          Some e \<Rightarrow> (Some (FailedToOpen (UsbError e)), d1)
        | None \<Rightarrow>
            (case claim (d1\<lparr>h := True\<rparr>) of
               (Some e, d2) \<Rightarrow> (Some (FailedToClaim e), d2)
             | (None, d2) \<Rightarrow>
                 if InterfaceStringIndex d2 = 0 then
                   (case GetDeviceInfo ops d2 of
                      (ext, d3) \<Rightarrow>
                        if \<not> Contains ext ''icrosoft'' then closeAndReturn d3 (NoMTPExtensions ext)
                        else (None, d3))
                 else
                   (case ifaceString (bus d2) of
                      Inl e \<Rightarrow> closeAndReturn d2 (UsbError e)
                    | Inr iface \<Rightarrow>
                        if \<not> Contains iface ''MTP'' then closeAndReturn d2 NoMTPInterface
                        else (None, d2))))"

text \<open>Lines 526 to 530 of \<open>Configure\<close>.\<close>

definition ensureOpen :: "helpers \<Rightarrow> DeviceDirect \<Rightarrow> error option \<times> DeviceDirect" where
  "ensureOpen ops d = (if \<not> h d then Open ops d else (None, d))"

text \<open>
  Lines 532 to 538: the first \<open>OpenSession\<close> and, when its error equals
  \<open>RCError(RC_SessionAlreadyOpened)\<close>, \<open>CloseSession\<close> (its error dropped) and a
  second \<open>OpenSession\<close>.
\<close>

definition openSessionRetry :: "helpers \<Rightarrow> DeviceDirect \<Rightarrow> error option \<times> DeviceDirect" where
  "openSessionRetry ops d =
     (case OpenSession ops d of
        (err, d1) \<Rightarrow>
          if err = Some (RCError (RC_SessionAlreadyOpened (pkg d1))) then
            (case CloseSession ops d1 of
               (ce, d2) \<Rightarrow> if panicked ce then (ce, d2) else OpenSession ops d2)
          else (err, d1))"

text \<open>Lines 540 to 555: reset, close, one second of rest, and a second attempt.\<close>

definition resetAndReopen :: "helpers \<Rightarrow> DeviceDirect \<Rightarrow> error option \<times> DeviceDirect" where
  "resetAndReopen ops d =
     (let d1 = (if h d then logEvent EvReset d else d) in
      case Close d1 of
        (ce, d2) \<Rightarrow>
          if panicked ce then (ce, d2)
          else
            let d3 = logEvent (EvSleep 1000) d2 in
            (case Open ops d3 of
               (Some e, d4) \<Rightarrow> if isPanic e then (Some e, d4) else (Some (OpeningAfterReset e), d4)
             | (None, d4) \<Rightarrow>
                 (case OpenSession ops d4 of
                    (Some e, d5) \<Rightarrow> if isPanic e then (Some e, d5) else (Some (OpenSessionAfterReset e), d5)
                  | (None, d5) \<Rightarrow> (None, d5))))"

definition Configure :: "helpers \<Rightarrow> DeviceDirect \<Rightarrow> error option \<times> DeviceDirect" where
  "Configure ops d =
     (case ensureOpen ops d of
        (Some e, d1) \<Rightarrow> (Some e, d1)
      | (None, d1) \<Rightarrow>
          (case openSessionRetry ops d1 of
             (err, d2) \<Rightarrow>
               if panicked err then (err, d2)
               else if err \<noteq> None then resetAndReopen ops d2
               else (None, d2)))"

section \<open>Auxiliary notions for the statements\<close>

subsection \<open>The parts of a transaction\<close>

text \<open>
  Lines 310 to 339 of \<open>runTransaction\<close> on their own: the IDs, the COMMAND packet and
  the data-out phase. \<open>Inl\<close> is an early return; \<open>Inr\<close> is the device and the
  request when the first packet is about to be fetched.
\<close>

definition sendPhase :: "DeviceDirect \<Rightarrow> Container \<Rightarrow> reader option \<Rightarrow> int
    \<Rightarrow> (error \<times> DeviceDirect \<times> Container) + (DeviceDirect \<times> Container)" where
  "sendPhase d req src writeSize =
     (case assignIDs d req of
        (d0, req0) \<Rightarrow>
          (case sendReq d0 req0 of
             (Some e, d1) \<Rightarrow> Inl (e, d1, req0)
           | (None, d1) \<Rightarrow>
               (case dataOutPhase d1 req0 src writeSize of
                  (Some e, d2) \<Rightarrow> Inl (e, d2, req0)
                | (None, d2) \<Rightarrow> Inr (d2, req0))))"

text \<open>
  Lines 309 to 382 of \<open>runTransaction\<close> on their own: everything before the call of
  \<open>decodeRep\<close>. \<open>Inl\<close> is an early return with its error; \<open>Inr\<close> is the header
  and the bytes handed to \<open>decodeRep\<close>, the flag \<open>unexpectedData\<close>, the device, the
  request with its IDs and the caller's sink.
\<close>

definition exchange :: "DeviceDirect \<Rightarrow> Container \<Rightarrow> writer option \<Rightarrow> reader option \<Rightarrow> int
    \<Rightarrow> (error \<times> DeviceDirect \<times> Container \<times> writer option)
        + (usbBulkHeader \<times> byte list \<times> bool \<times> DeviceDirect \<times> Container \<times> writer option)" where
  "exchange d req dest src writeSize =
     (case assignIDs d req of
        (d0, req0) \<Rightarrow>
          (case sendReq d0 req0 of
             (Some e, d1) \<Rightarrow> Inl (e, d1, req0, dest)
           | (None, d1) \<Rightarrow>
               (case dataOutPhase d1 req0 src writeSize of
                  (Some e, d2) \<Rightarrow> Inl (e, d2, req0, dest)
                | (None, d2) \<Rightarrow>
                    (case fetchPacket d2 of
                       (Inl e, d3) \<Rightarrow> Inl (e, d3, req0, dest)
                     | (Inr (hdr, rest), d3) \<Rightarrow>
                         (case dataInPhase d3 dest hdr rest (fetchMaxPacketSize d2) of
                            Inl (e, d4, dest') \<Rightarrow> Inl (e, d4, req0, dest')
                          | Inr (hdr', rest', unexpectedData, d4, dest') \<Rightarrow>
                              Inr (hdr', rest', unexpectedData, d4, req0, dest'))))))"

subsection \<open>Frames and transfers\<close>

text \<open>
  Two device records are the same connection when the second differs from the first
  at most in the transfer scripts of the transport and in a longer log of sent packets.
\<close>

definition sameConn :: "DeviceDirect \<Rightarrow> DeviceDirect \<Rightarrow> bool" where
  "sameConn d d' =
     (d' = d\<lparr>bus := (bus d)\<lparr>inq := inq (bus d'), outq := outq (bus d'), sent := sent (bus d')\<rparr>\<rparr>
      \<and> take (length (sent (bus d))) (sent (bus d')) = sent (bus d))"


text \<open>A byte string cut into transfers of at most \<open>B\<close> bytes.\<close>

function chunks :: "nat \<Rightarrow> 'a list \<Rightarrow> 'a list list" where
  "chunks B xs = (if B = 0 \<or> xs = [] then [] else take B xs # chunks B (drop B xs))"
  by pat_completeness auto
termination
  by (relation "measure (\<lambda>(B, xs). length xs)") auto

text \<open>The length of the last of these transfers, for \<open>m\<close> bytes, \<open>m\<close> positive.\<close>

definition lastLen :: "nat \<Rightarrow> nat \<Rightarrow> nat" where
  "lastLen B m = (if m mod B = 0 then B else m mod B)"
section \<open>Concrete devices and requests\<close>

text \<open>A device and a request used to exercise the theorems on concrete inputs.\<close>

definition exampleConsts :: pkg_consts where
  "exampleConsts = \<lparr>rwBufSize = 64, RC_OK = 0x2001, RC_SessionAlreadyOpened = 0x201E,
     OC_CloseSession = 0x1003\<rparr>"

definition exampleBus :: usb_bus where
  "exampleBus = \<lparr>maxPacketSizeSend = 32, maxPacketSizeFetch = 32, inq = [], outq = [], sent = [],
     events = [], openResult = None, claimResult = None, ifaceString = Inr ''MTP''\<rparr>"

definition exampleDevice :: DeviceDirect where
  "exampleDevice = \<lparr>h = True, claimed = True, InterfaceStringIndex = 1, Timeout = 2000,
     SeparateHeader = False, session = Some \<lparr>tid = 7, sid = 1\<rparr>, bus = exampleBus,
     pkg = exampleConsts\<rparr>"

definition exampleReq :: Container where
  "exampleReq = \<lparr>Code = 0x1002, SessionID = 0, TransactionID = 0, Param = [0xAABBCCDD, 5]\<rparr>"


text \<open>The components of what \<open>runTransaction\<close> and \<open>RunTransaction\<close> return.\<close>

definition errOf :: "error option \<times> DeviceDirect \<times> Container \<times> Container \<times> writer option \<Rightarrow> error option" where
  "errOf res = fst res"

definition devOf :: "error option \<times> DeviceDirect \<times> Container \<times> Container \<times> writer option \<Rightarrow> DeviceDirect" where
  "devOf res = fst (snd res)"

definition reqOf :: "error option \<times> DeviceDirect \<times> Container \<times> Container \<times> writer option \<Rightarrow> Container" where
  "reqOf res = fst (snd (snd res))"

definition repOf :: "error option \<times> DeviceDirect \<times> Container \<times> Container \<times> writer option \<Rightarrow> Container" where
  "repOf res = fst (snd (snd (snd res)))"

definition destOf :: "error option \<times> DeviceDirect \<times> Container \<times> Container \<times> writer option \<Rightarrow> writer option" where
  "destOf res = snd (snd (snd (snd res)))"

text \<open>A device whose session counter has reached the largest 32-bit value.\<close>

definition wrapDevice :: DeviceDirect where
  "wrapDevice = exampleDevice\<lparr>session := Some \<lparr>tid = 0xFFFFFFFF, sid = 1\<rparr>\<rparr>"



text \<open>
  A device that answers with the response code 0x2002, one parameter and a transaction
  ID that is not the request's, and one that answers OK with such a transaction ID.
\<close>

definition errorResponse :: usbBulkHeader where
  "errorResponse = \<lparr>Length = 16, Type = 3, hCode = 0x2002, hTransactionID = 99\<rparr>"

definition errorDevice :: DeviceDirect where
  "errorDevice = exampleDevice\<lparr>bus := exampleBus\<lparr>inq :=
     [Inr (writeHeader errorResponse @ put32 0x11223344)]\<rparr>\<rparr>"

definition mismatchResponse :: usbBulkHeader where
  "mismatchResponse = \<lparr>Length = 12, Type = 3, hCode = 0x2001, hTransactionID = 99\<rparr>"

definition mismatchDevice :: DeviceDirect where
  "mismatchDevice = exampleDevice\<lparr>bus := exampleBus\<lparr>inq := [Inr (writeHeader mismatchResponse)]\<rparr>\<rparr>"

text \<open>
  Stand-ins for the helpers, used to run \<open>Configure\<close> on a concrete device: opening a
  session is an OpenSession transaction through \<open>runTransaction\<close> that creates the
  session with the counter at 1; closing one is a CloseSession transaction through
  \<open>RunTransaction\<close> that drops the session.
\<close>

definition exampleOpenSession :: "DeviceDirect \<Rightarrow> error option \<times> DeviceDirect" where
  "exampleOpenSession d =
     (case runTransaction d \<lparr>Code = 0x1002, SessionID = 0, TransactionID = 0, Param = [1]\<rparr>
             zeroContainer None None 0 of
        (err, d', x) \<Rightarrow>
          if err \<noteq> None then (err, d') else (None, d'\<lparr>session := Some \<lparr>tid = 1, sid = 1\<rparr>\<rparr>))"

definition exampleCloseSession :: "DeviceDirect \<Rightarrow> error option \<times> DeviceDirect" where
  "exampleCloseSession d =
     (case RunTransaction d (zeroContainer\<lparr>Code := OC_CloseSession (pkg d)\<rparr>)
             zeroContainer None None 0 of
        (err, d', x) \<Rightarrow> (err, d'\<lparr>session := None\<rparr>))"

definition exampleHelpers :: helpers where
  "exampleHelpers = \<lparr>OpenSession = exampleOpenSession, CloseSession = exampleCloseSession,
     GetDeviceInfo = (\<lambda>d. (''microsoft.com: 1.0'', d))\<rparr>"

text \<open>
  A device left with a session open: it answers the first OpenSession with the code
  0x201E, then CloseSession and the second OpenSession with OK.
\<close>

definition staleSessionDevice :: DeviceDirect where
  "staleSessionDevice = exampleDevice\<lparr>session := None, bus := exampleBus\<lparr>inq :=
     [Inr (writeHeader \<lparr>Length = 12, Type = 3, hCode = 0x201E, hTransactionID = 0\<rparr>),
      Inr (writeHeader \<lparr>Length = 12, Type = 3, hCode = 0x2001, hTransactionID = 0\<rparr>),
      Inr (writeHeader \<lparr>Length = 12, Type = 3, hCode = 0x2001, hTransactionID = 0\<rparr>)]\<rparr>\<rparr>"

text \<open>
  Devices for the data-out phase: one whose send endpoint has 512-byte packets, with a
  transfer buffer of 16384 bytes, and one that sends the header in a write of its own.
  The DATA header as \<open>runTransaction\<close> fills it for a payload of \<open>n\<close> bytes.
\<close>

definition device512 :: DeviceDirect where
  "device512 = exampleDevice\<lparr>bus := exampleBus\<lparr>maxPacketSizeSend := 512\<rparr>,
     pkg := exampleConsts\<lparr>rwBufSize := 16384\<rparr>\<rparr>"

definition separateDevice :: DeviceDirect where
  "separateDevice = exampleDevice\<lparr>SeparateHeader := True\<rparr>"

definition dataHeader :: "nat \<Rightarrow> usbBulkHeader" where
  "dataHeader n = \<lparr>Length = word_of_nat n, Type = USB_CONTAINER_DATA, hCode = 0x100D, hTransactionID = 7\<rparr>"

definition payload :: "nat \<Rightarrow> byte list" where
  "payload n = replicate n 0"

text \<open>
  A device that answers a request that expects no data with a data phase of 30 bytes: a
  full first packet of 32 bytes (the DATA header and 20 bytes), a short transfer of 10
  bytes, and then its response.
\<close>

definition dataHeader30 :: usbBulkHeader where
  "dataHeader30 = \<lparr>Length = 42, Type = 2, hCode = 0x1002, hTransactionID = 7\<rparr>"

definition okResponse :: usbBulkHeader where
  "okResponse = \<lparr>Length = 12, Type = 3, hCode = 0x2001, hTransactionID = 7\<rparr>"

definition unexpectedDevice :: DeviceDirect where
  "unexpectedDevice = exampleDevice\<lparr>bus := exampleBus\<lparr>inq :=
     [Inr (writeHeader dataHeader30 @ payload 20), Inr (payload 10), Inr (writeHeader okResponse)]\<rparr>\<rparr>"

text \<open>
  Two devices that send a data phase of 52 bytes, a multiple of neither buffer but with a
  last transfer of exactly one packet, and answer OK with the parameter 0xCAFEBABE. The
  first delivers the response on the extra read that follows the data; the second
  delivers a zero-length packet there and the response on the next read.
\<close>

definition dataHeader52 :: usbBulkHeader where
  "dataHeader52 = \<lparr>Length = 64, Type = 2, hCode = 0x1002, hTransactionID = 7\<rparr>"

definition paramResponse :: "byte list" where
  "paramResponse = writeHeader \<lparr>Length = 16, Type = 3, hCode = 0x2001, hTransactionID = 7\<rparr>
     @ put32 0xCAFEBABE"

definition quirkDevice :: DeviceDirect where
  "quirkDevice = exampleDevice\<lparr>bus := exampleBus\<lparr>inq :=
     [Inr (writeHeader dataHeader52 @ payload 20), Inr (payload 32), Inr paramResponse]\<rparr>\<rparr>"

definition ackDevice :: DeviceDirect where
  "ackDevice = exampleDevice\<lparr>bus := exampleBus\<lparr>inq :=
     [Inr (writeHeader dataHeader52 @ payload 20), Inr (payload 32), Inr [], Inr paramResponse]\<rparr>\<rparr>"

section \<open>Properties of the codec\<close>

lemma Uint32_put32: "Uint32 (put32 w @ bs) = Some w"
  unfolding put32_def
  apply simp
  apply (rule bit_word_eqI)
  subgoal for n
    by (cases "n < 8"; cases "n < 16"; cases "n < 24") (auto simp add: bit_simps)
  done

lemma Uint16_put16: "Uint16 (put16 w @ bs) = Some w"
  unfolding put16_def
  apply simp
  apply (rule bit_word_eqI)
  apply (auto simp add: bit_simps)
  done

lemma length_put32 [simp]: "length (put32 w) = 4"
  by (simp add: put32_def)

lemma length_put16 [simp]: "length (put16 w) = 2"
  by (simp add: put16_def)

lemma length_writeHeader [simp]: "length (writeHeader hdr) = 12"
  by (simp add: writeHeader_def)

lemma length_concat_put32 [simp]: "length (concat (map put32 ps)) = 4 * length ps"
  by (induction ps) simp_all

lemma drop_concat_put32: "drop (4 * i) (concat (map put32 ps)) = concat (map put32 (drop i ps))"
proof (induction ps arbitrary: i)
  case Nil
  then show ?case by simp
next
  case (Cons p ps)
  show ?case
  proof (cases i)
    case 0
    then show ?thesis by simp
  next
    case (Suc j)
    then show ?thesis using Cons.IH [of j] by simp
  qed
qed

lemma Uint32_param: "i < length ps \<Longrightarrow> Uint32 (drop (4 * i) (concat (map put32 ps)) @ bs) = Some (ps ! i)"
proof -
  assume a: "i < length ps"
  then obtain p rest where d: "drop i ps = p # rest" and p: "p = ps ! i"
    by (metis Cons_nth_drop_Suc)
  show ?thesis
    by (simp add: drop_concat_put32 d Uint32_put32 p [symmetric])
qed

lemma readHeader_writeHeader: "readHeader (writeHeader hdr @ bs) = Inr (hdr, bs)"
proof -
  have l: "Uint32 (writeHeader hdr @ bs) = Some (Length hdr)"
    by (simp add: writeHeader_def Uint32_put32)
  have t: "Uint16 (drop 4 (writeHeader hdr) @ bs) = Some (Type hdr)"
    by (simp add: writeHeader_def Uint16_put16)
  have c: "Uint16 (drop 6 (writeHeader hdr) @ bs) = Some (hCode hdr)"
    by (simp add: writeHeader_def Uint16_put16)
  have i: "Uint32 (drop 8 (writeHeader hdr) @ bs) = Some (hTransactionID hdr)"
    by (simp add: writeHeader_def Uint32_put32)
  have n: "writeHeader hdr @ bs \<noteq> []"
    by (simp add: writeHeader_def put32_def)
  show ?thesis
    unfolding readHeader_def using n
    by (simp add: l t c i usbHdrLen_def)
qed

section \<open>C8: the encoded COMMAND packet\<close>

text \<open>
  C8. For a request with k parameters, k at most 5, \<open>sendReq\<close> transmits one packet
  of 12 + 4k bytes. Read back little-endian, its header has the length field 12 + 4k,
  the type COMMAND and the code and transaction ID of the request, and the k words
  after the header are the request's parameters in order.
\<close>

theorem sendReq_command_packet:
  assumes "length (Param req) \<le> 5"
  shows "\<exists>pkt. sent (bus (snd (sendReq d req))) = sent (bus d) @ [pkt]
           \<and> length pkt = 12 + 4 * length (Param req)
           \<and> readHeader pkt =
               Inr (\<lparr>Length = word_of_nat (12 + 4 * length (Param req)),
                      Type = USB_CONTAINER_COMMAND,
                      hCode = Code req,
                      hTransactionID = TransactionID req\<rparr>, drop 12 pkt)
           \<and> unat (word_of_nat (12 + 4 * length (Param req)) :: 32 word)
                = 12 + 4 * length (Param req)
           \<and> (\<forall>i < length (Param req). Uint32 (drop (12 + 4 * i) pkt) = Some (Param req ! i))"
proof -
  let ?c = "\<lparr>Length = word_of_nat (12 + 4 * length (Param req)),
             Type = USB_CONTAINER_COMMAND,
             hCode = Code req,
             hTransactionID = TransactionID req\<rparr>"
  let ?pkt = "writeHeader ?c @ concat (map put32 (Param req))"
  have s: "sent (bus (snd (sendReq d req))) = sent (bus d) @ [?pkt]"
    using assms
    by (simp add: sendReq_def maxParams_def usbHdrLen_def BulkTransferOut_def Let_def
        split: list.split option.split)
  have l: "length ?pkt = 12 + 4 * length (Param req)"
    by simp
  have r: "readHeader ?pkt = Inr (?c, drop 12 ?pkt)"
    by (simp add: readHeader_writeHeader)
  have u: "unat (word_of_nat (12 + 4 * length (Param req)) :: 32 word)
             = 12 + 4 * length (Param req)"
  proof (rule of_nat_inverse [OF refl])
    show "12 + 4 * length (Param req) < 2 ^ LENGTH(32)"
      using assms by simp
  qed
  have p: "\<forall>i < length (Param req). Uint32 (drop (12 + 4 * i) ?pkt) = Some (Param req ! i)"
  proof (intro allI impI)
    fix i
    assume "i < length (Param req)"
    then show "Uint32 (drop (12 + 4 * i) ?pkt) = Some (Param req ! i)"
      using Uint32_param [of i "Param req" "[]"] by simp
  qed
  show ?thesis
    using s l r u p by blast
qed

theorem sendReq_command_packet_witness:
  "length (Param exampleReq) \<le> 5
   \<and> (\<exists>pkt. sent (bus (snd (sendReq exampleDevice exampleReq))) = [pkt]
         \<and> length pkt = 20
         \<and> Uint32 (drop 12 pkt) = Some 0xAABBCCDD
         \<and> Uint32 (drop 16 pkt) = Some 5)"
proof -
  have k: "length (Param exampleReq) \<le> 5"
    by (simp add: exampleReq_def)
  have n: "length (Param exampleReq) = 2" "Param exampleReq ! 0 = 0xAABBCCDD"
      "Param exampleReq ! 1 = 5" "sent (bus exampleDevice) = []"
    by (simp_all add: exampleReq_def exampleDevice_def exampleBus_def)
  from sendReq_command_packet [OF k, of exampleDevice]
  obtain pkt where a: "sent (bus (snd (sendReq exampleDevice exampleReq))) = sent (bus exampleDevice) @ [pkt]"
    and b: "length pkt = 12 + 4 * length (Param exampleReq)"
    and c: "\<forall>i < length (Param exampleReq). Uint32 (drop (12 + 4 * i) pkt) = Some (Param exampleReq ! i)"
    by blast
  from c n have "Uint32 (drop (12 + 4 * 0) pkt) = Some 0xAABBCCDD"
    by (metis zero_less_numeral)
  moreover from c n have "Uint32 (drop (12 + 4 * 1) pkt) = Some 5"
    by (metis one_less_numeral_iff semiring_norm(76))
  ultimately show ?thesis
    using a b k n by simp
qed
section \<open>What the transfers leave unchanged\<close>

declare bulkReadLoop.simps [simp del]
declare bulkWriteLoop.simps [simp del]

lemma sameConn_refl [simp]: "sameConn d d"
  by (simp add: sameConn_def)

lemma sameConn_trans: "sameConn d d' \<Longrightarrow> sameConn d' d'' \<Longrightarrow> sameConn d d''"
proof -
  assume a: "sameConn d d'" and b: "sameConn d' d''"
  have p1: "take (length (sent (bus d))) (sent (bus d')) = sent (bus d)"
    using a by (simp add: sameConn_def)
  have p2: "take (length (sent (bus d'))) (sent (bus d'')) = sent (bus d')"
    using b by (simp add: sameConn_def)
  have "length (sent (bus d)) \<le> length (sent (bus d'))"
    using p1 by (metis length_take min.cobounded1)
  then have p: "take (length (sent (bus d))) (sent (bus d'')) = sent (bus d)"
    using p1 p2 by (metis min.absorb1 take_take)
  have e1: "d' = d\<lparr>bus := (bus d)\<lparr>inq := inq (bus d'), outq := outq (bus d'), sent := sent (bus d')\<rparr>\<rparr>"
    using a by (simp add: sameConn_def)
  have e2: "d'' = d'\<lparr>bus := (bus d')\<lparr>inq := inq (bus d''), outq := outq (bus d''), sent := sent (bus d'')\<rparr>\<rparr>"
    using b by (simp add: sameConn_def)
  have "d'' = d\<lparr>bus := (bus d)\<lparr>inq := inq (bus d''), outq := outq (bus d''), sent := sent (bus d'')\<rparr>\<rparr>"
    by (subst e2, subst e1, subst (2) e1) simp
  then show ?thesis
    using p by (simp add: sameConn_def)
qed

lemma sameConn_fields:
  assumes "sameConn d d'"
  shows "h d' = h d" "session d' = session d" "pkg d' = pkg d" "claimed d' = claimed d"
    "SeparateHeader d' = SeparateHeader d" "events (bus d') = events (bus d)"
    "fetchMaxPacketSize d' = fetchMaxPacketSize d" "sendMaxPacketSize d' = sendMaxPacketSize d"
proof -
  have e: "d' = d\<lparr>bus := (bus d)\<lparr>inq := inq (bus d'), outq := outq (bus d'), sent := sent (bus d')\<rparr>\<rparr>"
    using assms by (simp add: sameConn_def)
  show "h d' = h d" by (subst e) simp
  show "session d' = session d" by (subst e) simp
  show "pkg d' = pkg d" by (subst e) simp
  show "claimed d' = claimed d" by (subst e) simp
  show "SeparateHeader d' = SeparateHeader d" by (subst e) simp
  show "events (bus d') = events (bus d)" by (subst e) simp
  show "fetchMaxPacketSize d' = fetchMaxPacketSize d"
    unfolding fetchMaxPacketSize_def by (subst e) simp
  show "sendMaxPacketSize d' = sendMaxPacketSize d"
    unfolding sendMaxPacketSize_def by (subst e) simp
qed

lemma sameConn_sent:
  assumes "sameConn d d'"
  shows "\<exists>ys. sent (bus d') = sent (bus d) @ ys"
proof -
  have "take (length (sent (bus d))) (sent (bus d')) = sent (bus d)"
    using assms by (simp add: sameConn_def)
  then show ?thesis
    by (metis append_take_drop_id)
qed

lemma sameConn_inq [simp]: "sameConn d (d\<lparr>bus := (bus d)\<lparr>inq := q\<rparr>\<rparr>)"
  by (simp add: sameConn_def)

lemma sameConn_sent_upd [simp]: "sameConn d (d\<lparr>bus := (bus d)\<lparr>sent := sent (bus d) @ ys\<rparr>\<rparr>)"
  by (simp add: sameConn_def)

lemma sameConn_sent_outq [simp]:
  "sameConn d (d\<lparr>bus := (bus d)\<lparr>sent := sent (bus d) @ ys, outq := q\<rparr>\<rparr>)"
  by (simp add: sameConn_def)

lemma BulkTransferIn_sameConn: "BulkTransferIn d len = (bs, e, d') \<Longrightarrow> sameConn d d'"
  by (auto simp add: BulkTransferIn_def split: list.splits sum.splits)

lemma BulkTransferOut_sameConn: "BulkTransferOut d bs = (m, e, d') \<Longrightarrow> sameConn d d'"
  by (auto simp add: BulkTransferOut_def Let_def split: list.splits option.splits)

lemma bulkReadLoop_sameConn: "bulkReadLoop d w n = (d', w', n', lr, e) \<Longrightarrow> sameConn d d'"
proof (induction d w n arbitrary: d' w' n' lr e rule: bulkReadLoop.induct)
  case (1 d w n)
  obtain bs e1 d1 where t: "BulkTransferIn d (rwBufSize (pkg d)) = (bs, e1, d1)"
    by (metis prod_cases3)
  have s: "sameConn d d1"
    using t by (rule BulkTransferIn_sameConn)
  show ?case
  proof (cases e1)
    case (Some a)
    then show ?thesis
      using "1.prems" t s by (simp add: bulkReadLoop.simps [of d] Let_def)
  next
    case None
    obtain wn we w1 where wr: "Write w bs = (wn, we, w1)"
      by (metis prod_cases3)
    show ?thesis
    proof (cases "0 < length bs")
      case True
      show ?thesis
      proof (cases "we = None \<and> \<not> length bs < rwBufSize (pkg d)")
        case True
        then have "bulkReadLoop d1 w1 (n + int wn) = (d', w', n', lr, e)"
          using "1.prems" t None wr \<open>0 < length bs\<close> by (simp add: bulkReadLoop.simps [of d] Let_def)
        then have "sameConn d1 d'"
          using "1.IH"(1) [of bs "(e1, d1)" e1 d1 "length bs" wn "(we, w1)" we w1 d' w' n' lr e]
            t None wr \<open>0 < length bs\<close> True by simp
        then show ?thesis
          using s sameConn_trans by blast
      next
        case False
        then have "d' = d1"
          using "1.prems" t None wr \<open>0 < length bs\<close>
          by (auto simp add: bulkReadLoop.simps [of d] Let_def split: option.splits if_splits)
        then show ?thesis
          using s by simp
      qed
    next
      case False
      show ?thesis
      proof (cases "length bs < rwBufSize (pkg d)")
        case True
        then have "d' = d1"
          using "1.prems" t None False by (simp add: bulkReadLoop.simps [of d] Let_def)
        then show ?thesis
          using s by simp
      next
        case nl: False
        then have "bulkReadLoop d1 w n = (d', w', n', lr, e)"
          using "1.prems" t None False by (simp add: bulkReadLoop.simps [of d] Let_def)
        then have "sameConn d1 d'"
          using "1.IH"(2) [of bs "(e1, d1)" e1 d1 "length bs" d' w' n' lr e]
            t None False nl by simp
        then show ?thesis
          using s sameConn_trans by blast
      qed
    qed
  qed
qed

lemma bulkWriteLoop_sameConn: "sameConn d (fst (bulkWriteLoop d r sz n lt err))"
proof (induction d r sz n lt err rule: bulkWriteLoop.induct)
  case (1 d r sz n lastTransfer err)
  show ?case
  proof (cases "sz > 0")
    case False
    then show ?thesis
      by (simp add: bulkWriteLoop.simps [of d])
  next
    case True
    define toread where "toread = (if int (rwBufSize (pkg d)) > sz then nat sz else rwBufSize (pkg d))"
    obtain bs re r' where rd: "Read r toread = (bs, re, r')"
      by (metis prod_cases3)
    obtain lt e' d' where t: "BulkTransferOut d bs = (lt, e', d')"
      by (metis prod_cases3)
    have s: "sameConn d d'"
      using t by (rule BulkTransferOut_sameConn)
    show ?thesis
    proof (cases "re = None \<and> e' = None \<and> lt \<noteq> 0")
      case False
      then show ?thesis
        using True rd t s
        by (auto simp add: bulkWriteLoop.simps [of d] Let_def toread_def [symmetric] split: option.splits)
    next
      case c: True
      have "sameConn d' (fst (bulkWriteLoop d' r' (sz - int (length bs)) (n + int lt) lt e'))"
        using "1.IH" [of toread bs "(re, r')" re r' lt "(e', d')" e' d']
          True rd t c by (simp add: toread_def)
      then show ?thesis
        using True rd t s c sameConn_trans
        by (auto simp add: bulkWriteLoop.simps [of d] Let_def toread_def [symmetric])
    qed
  qed
qed

lemma sendReq_sameConn: "sameConn d (snd (sendReq d req))"
proof (cases "BulkTransferOut d (writeHeader \<lparr>Length = word_of_nat (usbHdrLen + 4 * length (Param req)),
    Type = USB_CONTAINER_COMMAND, hCode = Code req, hTransactionID = TransactionID req\<rparr>
    @ concat (map put32 (Param req)))")
  case (fields m e d')
  then show ?thesis
    using BulkTransferOut_sameConn [OF fields] by (simp add: sendReq_def Let_def)
qed

lemma fetchPacket_sameConn: "sameConn d (snd (fetchPacket d))"
proof (cases "BulkTransferIn d (fetchMaxPacketSize d)")
  case (fields bs e d')
  then show ?thesis
    using BulkTransferIn_sameConn [OF fields]
    by (simp add: fetchPacket_def split: option.splits sum.splits prod.splits)
qed

lemma bulkRead_sameConn:
  assumes "bulkRead d w = (n, fp, e, d', w')"
  shows "sameConn d d'"
proof -
  obtain d1 w1 n1 lr e1 where l: "bulkReadLoop d w 0 = (d1, w1, n1, lr, e1)"
    by (metis prod_cases5)
  have s1: "sameConn d d1"
    using l by (rule bulkReadLoop_sameConn)
  obtain bs e2 d2 where t: "BulkTransferIn d1 (rwBufSize (pkg d1)) = (bs, e2, d2)"
    by (metis prod_cases3)
  have s2: "sameConn d d2"
    using s1 BulkTransferIn_sameConn [OF t] by (rule sameConn_trans)
  have "d' = d1 \<or> d' = d2"
    using assms l t by (auto simp add: bulkRead_def Let_def split: if_splits)
  then show ?thesis
    using s1 s2 by blast
qed

lemma bulkWriteRest_sameConn:
  assumes "bulkWriteRest d r sz n err = (n', e, d', r')"
  shows "sameConn d d'"
proof -
  obtain d2 r2 n2 lt e2 where l: "bulkWriteLoop d r sz n 0 err = (d2, r2, n2, lt, e2)"
    by (metis prod_cases5)
  have s1: "sameConn d d2"
    using bulkWriteLoop_sameConn [of d r sz n 0 err] l by simp
  obtain m e3 d3 where t: "BulkTransferOut d2 [] = (m, e3, d3)"
    by (metis prod_cases3)
  have s2: "sameConn d d3"
    using s1 BulkTransferOut_sameConn [OF t] by (rule sameConn_trans)
  have "d' = d2 \<or> d' = d3"
    using assms l t by (auto simp add: bulkWriteRest_def Let_def split: if_splits)
  then show ?thesis
    using s1 s2 by blast
qed

lemma bulkWrite_sameConn:
  assumes "bulkWrite d hdr r sz = (n, e, d', r')"
  shows "sameConn d d'"
  using assms
  by (auto simp add: bulkWrite_def Let_def split: if_splits prod.splits option.splits
      dest!: BulkTransferOut_sameConn bulkWriteRest_sameConn elim: sameConn_trans)

lemma dataOutPhase_sameConn: "sameConn d (snd (dataOutPhase d req src ws))"
proof (cases src)
  case None
  then show ?thesis
    by (simp add: dataOutPhase_def)
next
  case (Some r)
  obtain n e d' r' where b: "bulkWrite d (Some \<lparr>Length = word_of_int ws, Type = USB_CONTAINER_DATA,
      hCode = Code req, hTransactionID = TransactionID req\<rparr>) r ws = (n, e, d', r')"
    by (metis prod_cases4)
  show ?thesis
    using Some b bulkWrite_sameConn [OF b] by (simp add: dataOutPhase_def Let_def)
qed

lemma dataInPhase_sameConn:
  "dataInPhase d dest hdr rest fps = Inl (e, d', dest') \<Longrightarrow> sameConn d d'"
  "dataInPhase d dest hdr rest fps = Inr (hdr', rest', u, d', dest') \<Longrightarrow> sameConn d d'"
proof -
  define w1 where "w1 = snd (snd (Write (case dest of None \<Rightarrow> NullWriter | Some w \<Rightarrow> w) rest))"
  obtain n fp e1 d1 w2 where b: "bulkRead d w1 = (n, fp, e1, d1, w2)"
    by (metis prod_cases5)
  have s1: "sameConn d d1"
    using b by (rule bulkRead_sameConn)
  have s2: "sameConn d (snd (fetchPacket d))"
    by (rule fetchPacket_sameConn)
  have s3: "sameConn d (snd (fetchPacket d1))"
    using s1 fetchPacket_sameConn [of d1] by (rule sameConn_trans)
  {
    assume "dataInPhase d dest hdr rest fps = Inl (e, d', dest')"
    then have "d' = d \<or> d' = d1"
      using b
      by (auto simp add: dataInPhase_def Let_def w1_def [symmetric]
          split: if_splits option.splits sum.splits prod.splits)
    then show "sameConn d d'"
      using s1 by auto
  }
  {
    assume "dataInPhase d dest hdr rest fps = Inr (hdr', rest', u, d', dest')"
    then have "d' = d \<or> d' = d1 \<or> d' = snd (fetchPacket d) \<or> d' = snd (fetchPacket d1)"
      using b
      by (auto simp add: dataInPhase_def Let_def w1_def [symmetric]
          split: if_splits option.splits sum.splits prod.splits)
    then show "sameConn d d'"
      using s1 s2 s3 by auto
  }
qed

lemma runTransaction_frame:
  assumes "runTransaction d req rep dest src ws = (err, d', req', rep', dest')"
  shows "sameConn (snd (sendReq (fst (assignIDs d req)) (snd (assignIDs d req)))) d'"
    and "req' = snd (assignIDs d req)"
proof -
  obtain d0 req0 where a: "assignIDs d req = (d0, req0)"
    by (metis prod.exhaust)
  obtain e1 d1 where s: "sendReq d0 req0 = (e1, d1)"
    by (metis prod.exhaust)
  have c1: "sameConn d1 d1"
    by simp
  obtain e2 d2 where o: "dataOutPhase d1 req0 src ws = (e2, d2)"
    by (metis prod.exhaust)
  have c2: "sameConn d1 d2"
    using c1 dataOutPhase_sameConn [of d1 req0 src ws] o sameConn_trans by fastforce
  obtain r3 d3 where f: "fetchPacket d2 = (r3, d3)"
    by (metis prod.exhaust)
  have c3: "sameConn d1 d3"
    using c2 fetchPacket_sameConn [of d2] f sameConn_trans by fastforce
  have r: "req' = req0"
    using assms a s o f
    by (auto simp add: runTransaction_def Let_def split: option.splits sum.splits prod.splits)
  have "sameConn d1 d'"
  proof (cases e1)
    case (Some x)
    then have "d' = d1"
      using assms a s by (simp add: runTransaction_def)
    then show ?thesis using c1 by simp
  next
    case n1: None
    show ?thesis
    proof (cases e2)
      case (Some x)
      then have "d' = d2"
        using assms a s n1 o by (simp add: runTransaction_def)
      then show ?thesis using c2 by simp
    next
      case n2: None
      show ?thesis
      proof (cases r3)
        case (Inl x)
        then have "d' = d3"
          using assms a s n1 o n2 f by (simp add: runTransaction_def)
        then show ?thesis using c3 by simp
      next
        case (Inr hr)
        obtain hdr rest where hr: "hr = (hdr, rest)"
          by (metis prod.exhaust)
        show ?thesis
        proof (cases "dataInPhase d3 dest hdr rest (fetchMaxPacketSize d2)")
          case (Inl x)
          obtain e4 d4 dest4 where x: "x = (e4, d4, dest4)"
            by (metis prod_cases3)
          have "d' = d4"
            using assms a s n1 o n2 f Inr hr Inl x by (simp add: runTransaction_def)
          moreover have "sameConn d3 d4"
            using Inl x dataInPhase_sameConn(1) by blast
          ultimately show ?thesis
            using c3 sameConn_trans by blast
        next
          case in4: (Inr y)
          obtain hdr' rest' u d4 dest4 where y: "y = (hdr', rest', u, d4, dest4)"
            by (metis prod_cases5)
          have "d' = d4"
            using assms a s n1 o n2 f Inr hr in4 y
            by (simp add: runTransaction_def split: prod.splits)
          moreover have "sameConn d3 d4"
            using in4 y dataInPhase_sameConn(2) by blast
          ultimately show ?thesis
            using c3 sameConn_trans by blast
        qed
      qed
    qed
  qed
  then show "sameConn (snd (sendReq (fst (assignIDs d req)) (snd (assignIDs d req)))) d'"
    and "req' = snd (assignIDs d req)"
    using a s r by simp_all
qed

lemma sendReq_sent:
  assumes "length (Param req) \<le> maxParams"
  shows "sent (bus (snd (sendReq d req))) =
    sent (bus d) @ [writeHeader \<lparr>Length = word_of_nat (usbHdrLen + 4 * length (Param req)),
      Type = USB_CONTAINER_COMMAND, hCode = Code req, hTransactionID = TransactionID req\<rparr>
      @ concat (map put32 (Param req))]"
  using assms
  by (simp add: sendReq_def BulkTransferOut_def Let_def split: list.split option.split)

lemma assignIDs_session:
  assumes "session d = Some s"
  shows "assignIDs d req = (d\<lparr>session := Some (s\<lparr>tid := tid s + 1\<rparr>)\<rparr>,
                            req\<lparr>SessionID := sid s, TransactionID := tid s\<rparr>)"
  using assms by (simp add: assignIDs_def)

lemma runTransaction_session:
  assumes "session d = Some s"
    and "runTransaction d req rep dest src ws = (err, d', req', rep', dest')"
  shows "session d' = Some (s\<lparr>tid := tid s + 1\<rparr>)"
    and "req' = req\<lparr>SessionID := sid s, TransactionID := tid s\<rparr>"
    and "h d' = h d" and "events (bus d') = events (bus d)" and "pkg d' = pkg d"
    and "claimed d' = claimed d"
proof -
  let ?d0 = "d\<lparr>session := Some (s\<lparr>tid := tid s + 1\<rparr>)\<rparr>"
  let ?r0 = "req\<lparr>SessionID := sid s, TransactionID := tid s\<rparr>"
  have a: "assignIDs d req = (?d0, ?r0)"
    using assms(1) by (rule assignIDs_session)
  have "sameConn (snd (sendReq ?d0 ?r0)) d'"
    using runTransaction_frame(1) [OF assms(2)] a by simp
  then have c: "sameConn ?d0 d'"
    using sendReq_sameConn [of ?d0 ?r0] sameConn_trans by blast
  show "session d' = Some (s\<lparr>tid := tid s + 1\<rparr>)"
    using sameConn_fields(2) [OF c] by simp
  show "req' = ?r0"
    using runTransaction_frame(2) [OF assms(2)] a by simp
  show "h d' = h d"
    using sameConn_fields(1) [OF c] by simp
  show "events (bus d') = events (bus d)"
    using sameConn_fields(6) [OF c] by simp
  show "pkg d' = pkg d"
    using sameConn_fields(3) [OF c] by simp
  show "claimed d' = claimed d"
    using sameConn_fields(4) [OF c] by simp
qed

lemma runTransaction_first_sent:
  assumes "session d = Some s" and "length (Param req) \<le> maxParams"
    and "runTransaction d req rep dest src ws = (err, d', req', rep', dest')"
  shows "\<exists>pkt ys. sent (bus d') = sent (bus d) @ pkt # ys \<and> Uint32 (drop 8 pkt) = Some (tid s)"
proof -
  let ?d0 = "d\<lparr>session := Some (s\<lparr>tid := tid s + 1\<rparr>)\<rparr>"
  let ?r0 = "req\<lparr>SessionID := sid s, TransactionID := tid s\<rparr>"
  let ?pkt = "writeHeader \<lparr>Length = word_of_nat (usbHdrLen + 4 * length (Param ?r0)),
      Type = USB_CONTAINER_COMMAND, hCode = Code ?r0, hTransactionID = TransactionID ?r0\<rparr>
      @ concat (map put32 (Param ?r0))"
  have a: "assignIDs d req = (?d0, ?r0)"
    using assms(1) by (rule assignIDs_session)
  have "sameConn (snd (sendReq ?d0 ?r0)) d'"
    using runTransaction_frame(1) [OF assms(3)] a by simp
  then obtain ys where "sent (bus d') = sent (bus (snd (sendReq ?d0 ?r0))) @ ys"
    using sameConn_sent by blast
  moreover have "sent (bus (snd (sendReq ?d0 ?r0))) = sent (bus ?d0) @ [?pkt]"
    using assms(2) by (intro sendReq_sent) simp
  ultimately have "sent (bus d') = sent (bus d) @ ?pkt # ys"
    by simp
  moreover have "Uint32 (drop 8 ?pkt) = Some (tid s)"
    by (simp add: writeHeader_def Uint32_put32)
  ultimately show ?thesis
    by blast
qed

lemma result_tuple: "res = (errOf res, devOf res, reqOf res, repOf res, destOf res)"
  by (simp add: errOf_def devOf_def reqOf_def repOf_def destOf_def)

section \<open>C1: transaction IDs\<close>

text \<open>
  C1, as the code has it. With a session active, \<open>runTransaction\<close> gives the request
  the counter's value, puts that value into the COMMAND packet it sends, and advances the
  counter by one whatever the outcome of the transaction. So the next transaction
  carries the previous ID plus one modulo 2^32: a different ID, and a larger one
  unless the counter was at 0xFFFFFFFF.
\<close>

theorem runTransaction_transaction_ids:
  assumes "session d = Some s"
    and "runTransaction d reqA repA destA srcA wsA = (errA, dA, reqA', repA', destA')"
    and "runTransaction dA reqB repB destB srcB wsB = (errB, dB, reqB', repB', destB')"
  shows "TransactionID reqA' = tid s
       \<and> session dA = Some (s\<lparr>tid := tid s + 1\<rparr>)
       \<and> (length (Param reqA) \<le> 5 \<longrightarrow>
            (\<exists>pkt ys. sent (bus dA) = sent (bus d) @ pkt # ys \<and> Uint32 (drop 8 pkt) = Some (tid s)))
       \<and> TransactionID reqB' = TransactionID reqA' + 1
       \<and> TransactionID reqB' \<noteq> TransactionID reqA'
       \<and> (tid s \<noteq> 0xFFFFFFFF \<longrightarrow> TransactionID reqA' < TransactionID reqB')
       \<and> session dB = Some (s\<lparr>tid := tid s + 2\<rparr>)"
proof -
  have a1: "TransactionID reqA' = tid s"
    using runTransaction_session(2) [OF assms(1) assms(2)] by simp
  have a2: "session dA = Some (s\<lparr>tid := tid s + 1\<rparr>)"
    using assms(1) assms(2) by (rule runTransaction_session(1))
  have a3: "length (Param reqA) \<le> 5 \<longrightarrow>
      (\<exists>pkt ys. sent (bus dA) = sent (bus d) @ pkt # ys \<and> Uint32 (drop 8 pkt) = Some (tid s))"
    using runTransaction_first_sent [OF assms(1) _ assms(2)] by (simp add: maxParams_def)
  have b1: "TransactionID reqB' = tid s + 1"
    using runTransaction_session(2) [OF a2 assms(3)] by simp
  have b2: "session dB = Some (s\<lparr>tid := tid s + 2\<rparr>)"
    using runTransaction_session(1) [OF a2 assms(3)] by simp
  have m: "(0xFFFFFFFF :: 32 word) = - 1"
    by simp
  have w: "tid s \<noteq> 0xFFFFFFFF \<longrightarrow> tid s < tid s + 1"
    unfolding m using inc_less_eq_self_iff_eq [of "tid s"] by (simp add: not_le [symmetric])
  show ?thesis
    using a1 a2 a3 b1 b2 w by simp
qed

theorem runTransaction_transaction_ids_witness:
  "session exampleDevice = Some \<lparr>tid = 7, sid = 1\<rparr>
   \<and> TransactionID (reqOf (runTransaction exampleDevice exampleReq zeroContainer None None 0)) = 7
   \<and> TransactionID (reqOf (runTransaction
        (devOf (runTransaction exampleDevice exampleReq zeroContainer None None 0))
        exampleReq zeroContainer None None 0)) = 8"
proof -
  let ?A = "runTransaction exampleDevice exampleReq zeroContainer None None 0"
  let ?B = "runTransaction (devOf ?A) exampleReq zeroContainer None None 0"
  have s: "session exampleDevice = Some \<lparr>tid = 7, sid = 1\<rparr>"
    by (simp add: exampleDevice_def)
  have a: "?A = (errOf ?A, devOf ?A, reqOf ?A, repOf ?A, destOf ?A)"
    by (rule result_tuple)
  have b: "?B = (errOf ?B, devOf ?B, reqOf ?B, repOf ?B, destOf ?B)"
    by (rule result_tuple)
  show ?thesis
    using runTransaction_transaction_ids [OF s a b] s by simp
qed

text \<open>
  The claim as written fails at the wrap-around: with the counter at 0xFFFFFFFF the
  next transaction carries the ID 0, which is not larger.
\<close>

theorem runTransaction_transaction_ids_wrap:
  "TransactionID (reqOf (runTransaction wrapDevice exampleReq zeroContainer None None 0)) = 0xFFFFFFFF
   \<and> TransactionID (reqOf (runTransaction
        (devOf (runTransaction wrapDevice exampleReq zeroContainer None None 0))
        exampleReq zeroContainer None None 0)) = 0
   \<and> \<not> TransactionID (reqOf (runTransaction wrapDevice exampleReq zeroContainer None None 0))
        < TransactionID (reqOf (runTransaction
            (devOf (runTransaction wrapDevice exampleReq zeroContainer None None 0))
            exampleReq zeroContainer None None 0))"
proof -
  let ?A = "runTransaction wrapDevice exampleReq zeroContainer None None 0"
  let ?B = "runTransaction (devOf ?A) exampleReq zeroContainer None None 0"
  let ?s = "\<lparr>tid = 0xFFFFFFFF, sid = 1\<rparr> :: sessionData"
  have s: "session wrapDevice = Some ?s"
    by (simp add: wrapDevice_def)
  have a: "?A = (errOf ?A, devOf ?A, reqOf ?A, repOf ?A, destOf ?A)"
    by (rule result_tuple)
  have b: "?B = (errOf ?B, devOf ?B, reqOf ?B, repOf ?B, destOf ?B)"
    by (rule result_tuple)
  have t1: "TransactionID (reqOf ?A) = 0xFFFFFFFF"
    using runTransaction_session(2) [OF s a] by simp
  have s1: "session (devOf ?A) = Some (?s\<lparr>tid := tid ?s + 1\<rparr>)"
    using s a by (rule runTransaction_session(1))
  have t2: "TransactionID (reqOf ?B) = 0"
    using runTransaction_session(2) [OF s1 b] by simp
  show ?thesis
    using t1 t2 by simp
qed

section \<open>The two halves of a transaction\<close>

lemma runTransaction_exchange:
  "runTransaction d req rep dest src ws =
     (case exchange d req dest src ws of
        Inl (e, d', req0, dest') \<Rightarrow> (Some e, d', req0, rep, dest')
      | Inr (hdr, rest, u, d', req0, dest') \<Rightarrow>
          (case finishTransaction d' req0 rep hdr rest u of
             (err, rep') \<Rightarrow> (err, d', req0, rep', dest')))"
  by (simp add: runTransaction_def exchange_def Let_def
      split: prod.splits option.splits sum.splits)

lemma runTransaction_Inr:
  assumes "exchange d req dest src ws = Inr (hdr, rest, u, d', req0, dest')"
  shows "runTransaction d req rep dest src ws =
    (fst (finishTransaction d' req0 rep hdr rest u), d', req0,
     snd (finishTransaction d' req0 rep hdr rest u), dest')"
  using assms by (simp add: runTransaction_exchange split: prod.splits)

lemma runTransaction_Inl:
  assumes "exchange d req dest src ws = Inl (e, d', req0, dest')"
  shows "runTransaction d req rep dest src ws = (Some e, d', req0, rep, dest')"
  using assms by (simp add: runTransaction_exchange)

lemma exchange_Inr_session:
  assumes "exchange d req dest src ws = Inr (hdr, rest, u, d', req0, dest')"
  shows "h d' = h d" and "events (bus d') = events (bus d)" and "pkg d' = pkg d"
    and "claimed d' = claimed d"
    and "session d = Some s \<Longrightarrow> session d' = Some (s\<lparr>tid := tid s + 1\<rparr>)"
    and "session d = Some s \<Longrightarrow> req0 = req\<lparr>SessionID := sid s, TransactionID := tid s\<rparr>"
    and "session d = None \<Longrightarrow> session d' = None"
    and "session d = None \<Longrightarrow> req0 = req"
proof -
  let ?f = "finishTransaction d' req0 zeroContainer hdr rest u"
  have r: "runTransaction d req zeroContainer dest src ws = (fst ?f, d', req0, snd ?f, dest')"
    using assms by (rule runTransaction_Inr)
  have c0: "sameConn (fst (assignIDs d req)) (snd (sendReq (fst (assignIDs d req)) (snd (assignIDs d req))))"
    by (rule sendReq_sameConn)
  have c: "sameConn (fst (assignIDs d req)) d'"
    using c0 runTransaction_frame(1) [OF r] by (rule sameConn_trans)
  have q: "req0 = snd (assignIDs d req)"
    using r by (rule runTransaction_frame(2))
  show "h d' = h d"
    using sameConn_fields(1) [OF c] by (simp add: assignIDs_def split: option.splits)
  show "events (bus d') = events (bus d)"
    using sameConn_fields(6) [OF c] by (simp add: assignIDs_def split: option.splits)
  show "pkg d' = pkg d"
    using sameConn_fields(3) [OF c] by (simp add: assignIDs_def split: option.splits)
  show "claimed d' = claimed d"
    using sameConn_fields(4) [OF c] by (simp add: assignIDs_def split: option.splits)
  show "session d = Some s \<Longrightarrow> session d' = Some (s\<lparr>tid := tid s + 1\<rparr>)"
    using sameConn_fields(2) [OF c] by (simp add: assignIDs_def)
  show "session d = Some s \<Longrightarrow> req0 = req\<lparr>SessionID := sid s, TransactionID := tid s\<rparr>"
    using q by (simp add: assignIDs_def)
  show "session d = None \<Longrightarrow> session d' = None"
    using sameConn_fields(2) [OF c] by (simp add: assignIDs_def)
  show "session d = None \<Longrightarrow> req0 = req"
    using q by (simp add: assignIDs_def)
qed

section \<open>Decoding a response\<close>

lemma Uint32_Some: "4 \<le> length bs \<Longrightarrow> \<exists>w. Uint32 bs = Some w"
  apply (cases bs, simp)
  subgoal for b0 r0
    apply (cases r0, simp)
    subgoal for b1 r1
      apply (cases r1, simp)
      subgoal for b2 r2
        by (cases r2) simp_all
      done
    done
  done

lemma those_map_Some:
  "(\<And>x. x \<in> set xs \<Longrightarrow> f x \<noteq> None) \<Longrightarrow> those (map f xs) = Some (map (\<lambda>x. the (f x)) xs)"
  by (induction xs) (auto split: option.splits)

lemma readParams_Some:
  assumes "4 * n \<le> length rest"
  shows "readParams rest n = Some (map (\<lambda>i. the (Uint32 (drop (4 * i) rest))) [0..<n])"
  unfolding readParams_def
proof (rule those_map_Some)
  fix i
  assume "i \<in> set [0..<n]"
  then have "4 \<le> length (drop (4 * i) rest)"
    using assms by simp
  then show "Uint32 (drop (4 * i) rest) \<noteq> None"
    using Uint32_Some by fastforce
qed

lemma quot_4: "4 * nat (quot r 4) \<le> nat r"
proof (cases "r < 0")
  case True
  then show ?thesis
    by (simp add: quot_def sgn_if)
next
  case False
  have m: "r div 4 * 4 + r mod 4 = r"
    by simp
  have "0 \<le> r mod 4"
    by simp
  then have u: "4 * (r div 4) \<le> r"
    using m by linarith
  have z: "0 \<le> r div 4"
    using False by (simp add: pos_imp_zdiv_nonneg_iff)
  have "4 * nat (r div 4) = nat (4 * (r div 4))"
    using z by (simp add: nat_mult_distrib)
  then have "4 * nat (r div 4) \<le> nat r"
    using u by simp
  then show ?thesis
    using False by (simp add: quot_def sgn_if)
qed

text \<open>The parameters \<open>decodeRep\<close> reads for a header and its payload.\<close>

lemma decodeRep_wrong_type:
  assumes "Type hdr \<noteq> USB_CONTAINER_RESPONSE"
  shows "decodeRep d hdr rest rep = (Some (SyncError (WrongType (Type hdr))), rep)"
  using assms by (simp add: decodeRep_def)

lemma decodeRep_too_long:
  assumes "Type hdr = USB_CONTAINER_RESPONSE"
    and "int (unat (Length hdr)) - 12 > int (length rest)"
  shows "decodeRep d hdr rest rep =
    (Some (HeaderLength (int (unat (Length hdr)) - 12) (length rest)),
     rep\<lparr>Code := hCode hdr, TransactionID := hTransactionID hdr\<rparr>)"
  using assms by (simp add: decodeRep_def usbHdrLen_def Let_def)

lemma decodeRep_valid:
  assumes "Type hdr = USB_CONTAINER_RESPONSE"
    and "int (unat (Length hdr)) - 12 \<le> int (length rest)"
  shows "decodeRep d hdr rest rep =
    ((if hCode hdr \<noteq> RC_OK (pkg d) then Some (RCError (hCode hdr)) else None),
     rep\<lparr>Code := hCode hdr, TransactionID := hTransactionID hdr,
         Param := Param rep @ map (\<lambda>i. the (Uint32 (drop (4 * i) rest)))
                    [0..<nat (quot (int (unat (Length hdr)) - 12) 4)]\<rparr>)"
proof -
  let ?r = "int (unat (Length hdr)) - 12"
  have "4 * nat (quot ?r 4) \<le> nat ?r"
    by (rule quot_4)
  then have "4 * nat (quot ?r 4) \<le> length rest"
    using assms(2) by linarith
  then have "readParams rest (nat (quot ?r 4)) =
      Some (map (\<lambda>i. the (Uint32 (drop (4 * i) rest))) [0..<nat (quot ?r 4)])"
    by (rule readParams_Some)
  then show ?thesis
    using assms by (simp add: decodeRep_def usbHdrLen_def Let_def)
qed

lemma decodeRep_no_panic: "fst (decodeRep d hdr rest rep) \<noteq> Some (Panic p)"
proof (cases "Type hdr = USB_CONTAINER_RESPONSE")
  case False
  then show ?thesis
    by (simp add: decodeRep_wrong_type)
next
  case True
  then show ?thesis
  proof (cases "int (unat (Length hdr)) - 12 > int (length rest)")
    case True
    then show ?thesis
      using \<open>Type hdr = USB_CONTAINER_RESPONSE\<close> by (simp add: decodeRep_too_long)
  next
    case False
    then show ?thesis
      using \<open>Type hdr = USB_CONTAINER_RESPONSE\<close> by (simp add: decodeRep_valid)
  qed
qed

lemma panicked_simps [simp]:
  "panicked None = False" "panicked (Some e) = isPanic e"
  by (simp_all add: panicked_def)

lemma finishTransaction_no_panic: "\<not> panicked (fst (finishTransaction d req rep hdr rest u))"
proof -
  obtain err rep1 where dr: "decodeRep d hdr rest rep = (err, rep1)"
    by (metis prod.exhaust)
  have "err \<noteq> Some (Panic q)" for q
    using decodeRep_no_panic [of d hdr rest rep q] dr by simp
  then have "\<not> panicked err"
    by (cases err; simp) (metis isPanic.elims(2))
  then show ?thesis
    using dr by (cases err) (simp_all add: finishTransaction_def)
qed

section \<open>Panics, teardown and the checked transaction\<close>

lemma BulkTransferIn_err: "BulkTransferIn d len = (bs, Some e, d') \<Longrightarrow> isUsbError e"
  by (auto simp add: BulkTransferIn_def split: list.splits sum.splits)

lemma bulkReadLoop_err: "bulkReadLoop d w n = (d', w', n', lr, Some e) \<Longrightarrow> isUsbError e"
proof (induction d w n arbitrary: d' w' n' lr e rule: bulkReadLoop.induct)
  case (1 d w n)
  obtain bs e1 d1 where t: "BulkTransferIn d (rwBufSize (pkg d)) = (bs, e1, d1)"
    by (metis prod_cases3)
  show ?case
  proof (cases e1)
    case (Some a)
    then show ?thesis
      using "1.prems" t BulkTransferIn_err [of d "rwBufSize (pkg d)" bs a d1]
      by (simp add: bulkReadLoop.simps [of d] Let_def)
  next
    case None
    obtain wn we w1 where wr: "Write w bs = (wn, we, w1)"
      by (metis prod_cases3)
    show ?thesis
    proof (cases "0 < length bs")
      case True
      show ?thesis
      proof (cases "we = None \<and> \<not> length bs < rwBufSize (pkg d)")
        case True
        then have "bulkReadLoop d1 w1 (n + int wn) = (d', w', n', lr, Some e)"
          using "1.prems" t None wr \<open>0 < length bs\<close> by (simp add: bulkReadLoop.simps [of d] Let_def)
        then show ?thesis
          using "1.IH"(1) [of bs "(e1, d1)" e1 d1 "length bs" wn "(we, w1)" we w1 d' w' n' lr e]
            t None wr \<open>0 < length bs\<close> True by simp
      next
        case False
        then show ?thesis
          using "1.prems" t None wr \<open>0 < length bs\<close>
          by (auto simp add: bulkReadLoop.simps [of d] Let_def split: option.splits if_splits)
      qed
    next
      case False
      show ?thesis
      proof (cases "length bs < rwBufSize (pkg d)")
        case True
        then show ?thesis
          using "1.prems" t None False by (simp add: bulkReadLoop.simps [of d] Let_def)
      next
        case nl: False
        then have "bulkReadLoop d1 w n = (d', w', n', lr, Some e)"
          using "1.prems" t None False by (simp add: bulkReadLoop.simps [of d] Let_def)
        then show ?thesis
          using "1.IH"(2) [of bs "(e1, d1)" e1 d1 "length bs" d' w' n' lr e]
            t None False nl by simp
      qed
    qed
  qed
qed

lemma bulkRead_err:
  assumes "fetchMaxPacketSize d \<noteq> 0" and "bulkRead d w = (n, fp, Some e, d', w')"
  shows "isUsbError e"
proof -
  obtain d1 w1 n1 lr e1 where l: "bulkReadLoop d w 0 = (d1, w1, n1, lr, e1)"
    by (metis prod_cases5)
  have "sameConn d d1"
    using l by (rule bulkReadLoop_sameConn)
  then have p: "fetchMaxPacketSize d1 \<noteq> 0"
    using assms(1) sameConn_fields(7) by simp
  obtain bs e2 d2 where t: "BulkTransferIn d1 (rwBufSize (pkg d1)) = (bs, e2, d2)"
    by (metis prod_cases3)
  have "e1 = Some e \<or> e2 = Some e"
    using assms(2) l t p by (auto simp add: bulkRead_def Let_def split: if_splits)
  then show ?thesis
    using bulkReadLoop_err l BulkTransferIn_err t by blast
qed

lemma fetchPacket_err: "fetchPacket d = (Inl e, d') \<Longrightarrow> \<not> isPanic e"
proof -
  assume a: "fetchPacket d = (Inl e, d')"
  obtain bs e1 d1 where t: "BulkTransferIn d (fetchMaxPacketSize d) = (bs, e1, d1)"
    by (metis prod_cases3)
  show ?thesis
  proof (cases e1)
    case (Some x)
    then have "e = x" and "isUsbError x"
      using a t BulkTransferIn_err [of d _ bs x d1] by (simp_all add: fetchPacket_def)
    then show ?thesis
      by (cases x) simp_all
  next
    case None
    then have "e = ErrEOF \<or> e = ErrUnexpectedEOF"
      using a t
      by (auto simp add: fetchPacket_def readHeader_def split: sum.splits prod.splits if_splits)
    then show ?thesis
      by auto
  qed
qed

lemma isUsbError_not_panic: "isUsbError e \<Longrightarrow> \<not> isPanic e"
  by (cases e) simp_all

lemma dataInPhase_err:
  assumes "fps = fetchMaxPacketSize d" and "dataInPhase d dest hdr rest fps = Inl (e, d', dest')"
  shows "isUsbError e"
proof -
  define w1 where "w1 = snd (snd (Write (case dest of None \<Rightarrow> NullWriter | Some w \<Rightarrow> w) rest))"
  obtain n fp e1 d1 w2 where b: "bulkRead d w1 = (n, fp, e1, d1, w2)"
    by (metis prod_cases5)
  have c: "length rest + usbHdrLen = fps \<and> e1 = Some e"
    using assms(2) b
    by (auto simp add: dataInPhase_def Let_def w1_def [symmetric]
        split: if_splits option.splits sum.splits prod.splits)
  then have "fetchMaxPacketSize d \<noteq> 0"
    using assms(1) by (simp add: usbHdrLen_def)
  then show ?thesis
    using bulkRead_err b c by blast
qed

lemma sendReq_err:
  assumes "length (Param req) \<le> maxParams" and "sendReq d req = (Some e, d')"
  shows "isUsbError e"
  using assms
  by (auto simp add: sendReq_def BulkTransferOut_def Let_def split: list.splits option.splits)

lemma exchange_no_data_out_err:
  assumes "length (Param req) \<le> maxParams"
    and "exchange d req dest None ws = Inl (e, d', req0, dest')"
  shows "\<not> isPanic e"
proof -
  obtain d0 r0 where a: "assignIDs d req = (d0, r0)"
    by (metis prod.exhaust)
  have pr: "length (Param r0) \<le> maxParams"
    using a assms(1) by (auto simp add: assignIDs_def split: option.splits)
  obtain e1 d1 where s: "sendReq d0 r0 = (e1, d1)"
    by (metis prod.exhaust)
  obtain r3 d3 where f: "fetchPacket d1 = (r3, d3)"
    by (metis prod.exhaust)
  have c3: "fetchMaxPacketSize d3 = fetchMaxPacketSize d1"
    using fetchPacket_sameConn [of d1] f sameConn_fields(7) by fastforce
  show ?thesis
  proof (cases e1)
    case (Some x)
    then have "e = x"
      using assms(2) a s by (simp add: exchange_def)
    then show ?thesis
      using sendReq_err [OF pr] s Some isUsbError_not_panic by blast
  next
    case n1: None
    show ?thesis
    proof (cases r3)
      case (Inl x)
      then have "e = x"
        using assms(2) a s n1 f by (simp add: exchange_def dataOutPhase_def)
      then show ?thesis
        using fetchPacket_err f Inl by blast
    next
      case (Inr hr)
      obtain hdr rest where hr: "hr = (hdr, rest)"
        by (metis prod.exhaust)
      have "\<exists>d4 dest4. dataInPhase d3 dest hdr rest (fetchMaxPacketSize d1) = Inl (e, d4, dest4)"
        using assms(2) a s n1 f Inr hr
        by (auto simp add: exchange_def dataOutPhase_def split: sum.splits prod.splits)
      then show ?thesis
        using dataInPhase_err [OF c3 [symmetric]] isUsbError_not_panic by blast
    qed
  qed
qed

lemma runTransaction_no_data_out_no_panic:
  assumes "length (Param req) \<le> maxParams"
  shows "\<not> panicked (errOf (runTransaction d req rep dest None ws))"
proof (cases "exchange d req dest None ws")
  case (Inl x)
  obtain e d' req0 dest' where x: "x = (e, d', req0, dest')"
    by (metis prod_cases4)
  have "\<not> isPanic e"
    using assms Inl x exchange_no_data_out_err by blast
  then show ?thesis
    using Inl x by (auto simp add: runTransaction_exchange errOf_def)
next
  case (Inr y)
  obtain hdr rest u d' req0 dest' where y: "y = (hdr, rest, u, d', req0, dest')"
    by (metis prod_cases6)
  show ?thesis
    using Inr y finishTransaction_no_panic [of d' req0 rep hdr rest u]
    by (simp add: runTransaction_Inr errOf_def)
qed

lemma logEvent_fields [simp]:
  "h (logEvent ev d) = h d" "session (logEvent ev d) = session d" "claimed (logEvent ev d) = claimed d"
  "events (bus (logEvent ev d)) = events (bus d) @ [ev]" "pkg (logEvent ev d) = pkg d"
  by (simp_all add: logEvent_def)

lemma Close_not_open: "\<not> h d \<Longrightarrow> Close d = (None, d)"
  by (simp add: Close_def)

lemma Close_closes:
  assumes "h d"
  shows "fst (Close d) = None" and "\<not> h (snd (Close d))"
    and "\<exists>evs. events (bus (snd (Close d))) = events (bus d) @ evs @ [EvCloseHandle]"
proof -
  let ?R = "runTransaction d (zeroContainer\<lparr>Code := OC_CloseSession (pkg d)\<rparr>) zeroContainer None None 0"
  define d1 where "d1 = (if session d = None then d
      else if errOf ?R = None then devOf ?R else logEvent EvReset (devOf ?R))"
  define d2 where "d2 = (if claimed d1 then logEvent EvReleaseInterface d1 else d1)"
  define d3 where "d3 = logEvent EvCloseHandle d2"
  have np: "\<not> panicked (errOf ?R)"
    by (rule runTransaction_no_data_out_no_panic) (simp add: zeroContainer_def maxParams_def)
  have R: "?R = (errOf ?R, devOf ?R, reqOf ?R, repOf ?R, destOf ?R)"
    by (rule result_tuple)
  have c: "Close d = (None, d3\<lparr>h := False\<rparr>)"
  proof (cases "session d")
    case None
    then show ?thesis
      using assms by (simp add: Close_def Let_def d1_def d2_def d3_def)
  next
    case (Some s)
    have "Close d = (case (if panicked (errOf ?R) then Inl (errOf ?R, devOf ?R)
                           else if errOf ?R \<noteq> None then Inr (logEvent EvReset (devOf ?R))
                           else Inr (devOf ?R)) of
                       Inl (err, d1) \<Rightarrow> (err, d1)
                     | Inr d1 \<Rightarrow>
                         let d2 = (if claimed d1 then logEvent EvReleaseInterface d1 else d1);
                             d3 = logEvent EvCloseHandle d2
                         in (None, d3\<lparr>h := False\<rparr>))"
      using assms Some
      by (subst Close_def, subst R) simp
    then show ?thesis
      using np Some by (simp add: Let_def d1_def d2_def d3_def)
  qed
  show "fst (Close d) = None" and "\<not> h (snd (Close d))"
    using c by simp_all
  have ev: "events (bus (devOf ?R)) = events (bus d)" if sn: "session d \<noteq> None"
  proof -
    obtain s where "session d = Some s"
      using sn by blast
    then show ?thesis
      using R runTransaction_session(4) by blast
  qed
  have "\<exists>evs. events (bus d1) = events (bus d) @ evs"
    using ev by (auto simp add: d1_def)
  then obtain evs where "events (bus d1) = events (bus d) @ evs"
    by blast
  then have "events (bus d3) = events (bus d) @ (evs @ (if claimed d1 then [EvReleaseInterface] else [])) @ [EvCloseHandle]"
    by (simp add: d3_def d2_def)
  moreover have "events (bus (snd (Close d))) = events (bus d3)"
    using c by simp
  ultimately show "\<exists>evs. events (bus (snd (Close d))) = events (bus d) @ evs @ [EvCloseHandle]"
    by metis
qed

lemma RunTransaction_fatal:
  assumes "h d" and "runTransaction d req rep dest src ws = (Some e, d1, req1, rep1, dest1)"
    and "isUsbError e \<or> isSyncError e"
  shows "RunTransaction d req rep dest src ws = (Some e, snd (Close d1), req1, rep1, dest1)"
proof (cases "h d1")
  case True
  obtain d2 where c: "Close d1 = (None, d2)"
    using Close_closes(1) [OF True] by (metis prod.exhaust fst_conv)
  show ?thesis
    using assms c by (simp add: RunTransaction_def)
next
  case False
  then show ?thesis
    using assms by (simp add: RunTransaction_def Close_not_open)
qed


section \<open>C5: a header that declares more payload than was received\<close>




section \<open>C4 and C10: a response code that is not OK\<close>






section \<open>C3: a response with another transaction ID\<close>

text \<open>
  C3, as the code has it. With a session active, when the packet handed to
  \<open>decodeRep\<close> is a valid RESPONSE with the code OK whose transaction ID differs from
  the request's, and the transaction met no unrequested data phase, \<open>runTransaction\<close>
  returns the protocol-desync error for the mismatch and \<open>RunTransaction\<close> closes the
  connection before it returns: the handle is nil afterwards and the handle's close is
  the last control operation issued.
\<close>

theorem RunTransaction_transaction_id_mismatch:
  assumes "h d"
    and "session d = Some s"
    and "exchange d req dest src ws = Inr (hdr, rest, False, d', req0, dest')"
    and "Type hdr = USB_CONTAINER_RESPONSE"
    and "int (unat (Length hdr)) - 12 \<le> int (length rest)"
    and "hCode hdr = RC_OK (pkg d)"
    and "hTransactionID hdr \<noteq> tid s"
  shows "errOf (runTransaction d req rep dest src ws)
           = Some (SyncError (TransactionIDMismatch (hTransactionID hdr) (tid s)))
       \<and> errOf (RunTransaction d req rep dest src ws)
           = Some (SyncError (TransactionIDMismatch (hTransactionID hdr) (tid s)))
       \<and> \<not> h (devOf (RunTransaction d req rep dest src ws))
       \<and> (\<exists>evs. events (bus (devOf (RunTransaction d req rep dest src ws)))
                  = events (bus d) @ evs @ [EvCloseHandle])"
proof -
  let ?e = "SyncError (TransactionIDMismatch (hTransactionID hdr) (tid s))"
  let ?rep = "rep\<lparr>Code := hCode hdr, TransactionID := hTransactionID hdr,
                Param := Param rep @ map (\<lambda>i. the (Uint32 (drop (4 * i) rest)))
                           [0..<nat (quot (int (unat (Length hdr)) - 12) 4)]\<rparr>"
  have p: "pkg d' = pkg d"
    using assms(3) by (rule exchange_Inr_session(3))
  have q: "TransactionID req0 = tid s"
    using exchange_Inr_session(6) [OF assms(3) assms(2)] by simp
  have sd: "session d' \<noteq> None"
    using exchange_Inr_session(5) [OF assms(3) assms(2)] by simp
  have hd: "h d'"
    using assms(1) exchange_Inr_session(1) [OF assms(3)] by simp
  have dr: "decodeRep d' hdr rest rep = (None, ?rep)"
    using assms(4,5,6) p by (simp add: decodeRep_valid)
  have f: "finishTransaction d' req0 rep hdr rest False = (Some ?e, ?rep)"
    using dr sd q assms(7) by (simp add: finishTransaction_def)
  have r: "runTransaction d req rep dest src ws = (Some ?e, d', req0, ?rep, dest')"
    using runTransaction_Inr [OF assms(3)] f by simp
  have R: "RunTransaction d req rep dest src ws = (Some ?e, snd (Close d'), req0, ?rep, dest')"
    using assms(1) r by (rule RunTransaction_fatal) simp
  have ev: "\<exists>evs. events (bus (snd (Close d'))) = events (bus d) @ evs @ [EvCloseHandle]"
    using Close_closes(3) [OF hd] exchange_Inr_session(2) [OF assms(3)] by simp
  show ?thesis
    using r R Close_closes(2) [OF hd] ev by (simp add: errOf_def devOf_def)
qed

theorem RunTransaction_transaction_id_mismatch_witness:
  "h mismatchDevice
   \<and> session mismatchDevice = Some \<lparr>tid = 7, sid = 1\<rparr>
   \<and> Type mismatchResponse = USB_CONTAINER_RESPONSE
   \<and> int (unat (Length mismatchResponse)) - 12 \<le> int (length ([] :: byte list))
   \<and> hCode mismatchResponse = RC_OK (pkg mismatchDevice)
   \<and> hTransactionID mismatchResponse \<noteq> 7
   \<and> errOf (RunTransaction mismatchDevice exampleReq zeroContainer None None 0)
       = Some (SyncError (TransactionIDMismatch 99 7))
   \<and> \<not> h (devOf (RunTransaction mismatchDevice exampleReq zeroContainer None None 0))"
proof -
  let ?R = "runTransaction mismatchDevice exampleReq zeroContainer None None 0"
  have a: "h mismatchDevice"
    by code_simp
  have s: "session mismatchDevice = Some \<lparr>tid = 7, sid = 1\<rparr>"
    by code_simp
  have b: "exchange mismatchDevice exampleReq None None 0 =
      Inr (mismatchResponse, [], False, devOf ?R, reqOf ?R, None)"
    by code_simp
  have c: "Type mismatchResponse = USB_CONTAINER_RESPONSE"
    by code_simp
  have l: "int (unat (Length mismatchResponse)) - 12 \<le> int (length ([] :: byte list))"
    by code_simp
  have k: "hCode mismatchResponse = RC_OK (pkg mismatchDevice)"
    by code_simp
  have m: "hTransactionID mismatchResponse \<noteq> tid \<lparr>tid = 7, sid = 1\<rparr>"
    by code_simp
  have v: "hTransactionID mismatchResponse = 99"
    by code_simp
  show ?thesis
    using RunTransaction_transaction_id_mismatch [OF a s b c l k m, of zeroContainer]
      a s c l k m v
    by simp
qed

text \<open>
  The claim as written fails when the response code is not OK: the device answers the
  request with ID 7 by a response with ID 99 and the code 0x2002, the call returns the
  device-response error, and the connection stays open.
\<close>

theorem RunTransaction_transaction_id_mismatch_not_checked:
  "session errorDevice = Some \<lparr>tid = 7, sid = 1\<rparr>
   \<and> TransactionID (reqOf (RunTransaction errorDevice exampleReq zeroContainer None None 0)) = 7
   \<and> TransactionID (repOf (RunTransaction errorDevice exampleReq zeroContainer None None 0)) = 99
   \<and> errOf (RunTransaction errorDevice exampleReq zeroContainer None None 0) = Some (RCError 0x2002)
   \<and> \<not> isSyncError (RCError 0x2002)
   \<and> h (devOf (RunTransaction errorDevice exampleReq zeroContainer None None 0))
   \<and> events (bus (devOf (RunTransaction errorDevice exampleReq zeroContainer None None 0))) = []"
  by code_simp

section \<open>C9: configuring a device that still has a session open\<close>

text \<open>
  C9. When the first \<open>OpenSession\<close> of \<open>Configure\<close> fails with the device-response
  code for a session that is already open, \<open>Configure\<close> calls \<open>CloseSession\<close> and
  then \<open>OpenSession\<close> again; if that second call succeeds, \<open>Configure\<close> returns
  success and the device is exactly as the second \<open>OpenSession\<close> left it: no reset,
  no close and no sleep follows.
\<close>

theorem Configure_session_already_opened:
  assumes "ensureOpen ops d = (None, d1)"
    and "OpenSession ops d1 = (Some (RCError (RC_SessionAlreadyOpened (pkg d2))), d2)"
    and "CloseSession ops d2 = (ce, d3)"
    and "\<not> panicked ce"
    and "OpenSession ops d3 = (None, d4)"
  shows "Configure ops d = (None, d4)
       \<and> d4 = snd (OpenSession ops (snd (CloseSession ops (snd (OpenSession ops d1)))))
       \<and> events (bus (snd (Configure ops d))) = events (bus d4)"
proof -
  have r: "openSessionRetry ops d1 = (None, d4)"
    using assms(2,3,4,5) by (simp add: openSessionRetry_def)
  have "Configure ops d = (None, d4)"
    using assms(1) r by (simp add: Configure_def)
  then show ?thesis
    using assms(2,3,5) by simp
qed

theorem Configure_session_already_opened_witness:
  "ensureOpen exampleHelpers staleSessionDevice = (None, staleSessionDevice)
   \<and> fst (OpenSession exampleHelpers staleSessionDevice)
       = Some (RCError (RC_SessionAlreadyOpened (pkg staleSessionDevice)))
   \<and> fst (Configure exampleHelpers staleSessionDevice) = None
   \<and> session (snd (Configure exampleHelpers staleSessionDevice)) = Some \<lparr>tid = 1, sid = 1\<rparr>
   \<and> events (bus (snd (Configure exampleHelpers staleSessionDevice))) = []
   \<and> map (\<lambda>pkt. Uint16 (drop 6 pkt)) (sent (bus (snd (Configure exampleHelpers staleSessionDevice))))
       = [Some 0x1002, Some 0x1003, Some 0x1002]"
proof -
  let ?d2 = "snd (OpenSession exampleHelpers staleSessionDevice)"
  let ?d3 = "snd (CloseSession exampleHelpers ?d2)"
  let ?d4 = "snd (OpenSession exampleHelpers ?d3)"
  have a: "ensureOpen exampleHelpers staleSessionDevice = (None, staleSessionDevice)"
    by code_simp
  have b: "OpenSession exampleHelpers staleSessionDevice
      = (Some (RCError (RC_SessionAlreadyOpened (pkg ?d2))), ?d2)"
    by code_simp
  have c: "CloseSession exampleHelpers ?d2 = (None, ?d3)"
    by code_simp
  have p: "\<not> panicked None"
    by simp
  have e: "OpenSession exampleHelpers ?d3 = (None, ?d4)"
    by code_simp
  have v: "fst (OpenSession exampleHelpers staleSessionDevice)
       = Some (RCError (RC_SessionAlreadyOpened (pkg staleSessionDevice)))"
    "session ?d4 = Some \<lparr>tid = 1, sid = 1\<rparr>" "events (bus ?d4) = []"
    "map (\<lambda>pkt. Uint16 (drop 6 pkt)) (sent (bus ?d4)) = [Some 0x1002, Some 0x1003, Some 0x1002]"
    by code_simp+
  show ?thesis
    using Configure_session_already_opened [OF a b c p e] a v by simp
qed

section \<open>Bulk write when every transfer succeeds\<close>

declare chunks.simps [simp del]

lemma chunks_Nil [simp]: "chunks B [] = []"
  by (simp add: chunks.simps)

lemma chunks_step: "0 < B \<Longrightarrow> xs \<noteq> [] \<Longrightarrow> chunks B xs = take B xs # chunks B (drop B xs)"
  by (subst chunks.simps) simp

lemma BulkTransferOut_ok:
  assumes "outq (bus d) = []"
  shows "BulkTransferOut d bs = (length bs, None, d\<lparr>bus := (bus d)\<lparr>sent := sent (bus d) @ [bs]\<rparr>\<rparr>)"
  using assms by (simp add: BulkTransferOut_def Let_def)

lemma lastLen_small: "0 < m \<Longrightarrow> m \<le> B \<Longrightarrow> lastLen B m = m"
  by (cases "m = B") (simp_all add: lastLen_def)

lemma lastLen_large: "B < m \<Longrightarrow> 0 < B \<Longrightarrow> lastLen B (m - B) = lastLen B m"
  by (simp add: lastLen_def le_mod_geq)

lemma bulkWriteLoop_success:
  assumes "outq (bus d) = []" and "0 < rwBufSize (pkg d)" and "nat sz \<le> length r"
  shows "bulkWriteLoop d r sz n lt err =
    (d\<lparr>bus := (bus d)\<lparr>sent := sent (bus d) @ chunks (rwBufSize (pkg d)) (take (nat sz) r)\<rparr>\<rparr>,
     drop (nat sz) r, n + int (nat sz),
     (if 0 < sz then lastLen (rwBufSize (pkg d)) (nat sz) else lt),
     (if 0 < sz then None else err))"
  using assms
proof (induction d r sz n lt err rule: bulkWriteLoop.induct)
  case (1 d r sz n lastTransfer err)
  let ?B = "rwBufSize (pkg d)"
  show ?case
  proof (cases "0 < sz")
    case False
    then show ?thesis
      by (simp add: bulkWriteLoop.simps [of d])
  next
    case True
    define toread where "toread = (if int ?B > sz then nat sz else ?B)"
    have tr: "0 < toread" "toread \<le> nat sz" "toread \<le> ?B"
      using True "1.prems"(2) by (auto simp add: toread_def)
    have rn: "r \<noteq> []"
      using True "1.prems"(3) by auto
    let ?bs = "take toread r"
    let ?d' = "d\<lparr>bus := (bus d)\<lparr>sent := sent (bus d) @ [?bs]\<rparr>\<rparr>"
    have rd: "Read r toread = (?bs, None, drop toread r)"
      using rn by (simp add: Read_def)
    have lb: "length ?bs = toread"
      using tr "1.prems"(3) by simp
    have t: "BulkTransferOut d ?bs = (toread, None, ?d')"
      using BulkTransferOut_ok [OF "1.prems"(1), of ?bs] lb by simp
    have step: "bulkWriteLoop d r sz n lastTransfer err =
        bulkWriteLoop ?d' (drop toread r) (sz - int toread) (n + int toread) toread None"
      using True rd t tr lb
      by (subst bulkWriteLoop.simps) (simp add: Let_def toread_def [symmetric])
    have ih: "bulkWriteLoop ?d' (drop toread r) (sz - int toread) (n + int toread) toread None =
        (?d'\<lparr>bus := (bus ?d')\<lparr>sent := sent (bus ?d') @ chunks (rwBufSize (pkg ?d'))
              (take (nat (sz - int toread)) (drop toread r))\<rparr>\<rparr>,
         drop (nat (sz - int toread)) (drop toread r), n + int toread + int (nat (sz - int toread)),
         (if 0 < sz - int toread then lastLen (rwBufSize (pkg ?d')) (nat (sz - int toread)) else toread),
         (if 0 < sz - int toread then None else None))"
      using "1.IH" [of toread ?bs "(None, drop toread r)" None "drop toread r" toread "(None, ?d')" None ?d']
        True rd t tr lb "1.prems"
      by (simp add: toread_def)
    have ch: "chunks ?B (take (nat sz) r) = ?bs # chunks ?B (take (nat (sz - int toread)) (drop toread r))"
    proof -
      have ne: "take (nat sz) r \<noteq> []"
        using rn True by simp
      have a: "take ?B (take (nat sz) r) = ?bs"
        using tr True by (auto simp add: toread_def min_def)
      have b: "drop ?B (take (nat sz) r) = take (nat (sz - int toread)) (drop toread r)"
      proof (cases "int ?B > sz")
        case True
        then show ?thesis
          using \<open>0 < sz\<close> by (simp add: toread_def)
      next
        case False
        then show ?thesis
          using \<open>0 < sz\<close> by (simp add: toread_def drop_take nat_diff_distrib)
      qed
      show ?thesis
        using chunks_step [OF "1.prems"(2) ne] a b by simp
    qed
    have ll: "(if 0 < sz - int toread then lastLen ?B (nat (sz - int toread)) else toread) = lastLen ?B (nat sz)"
    proof (cases "int ?B > sz")
      case True
      then show ?thesis
        using \<open>0 < sz\<close> by (simp add: toread_def lastLen_small)
    next
      case False
      then have tb: "toread = ?B"
        by (simp add: toread_def)
      show ?thesis
      proof (cases "0 < sz - int toread")
        case True
        then have "?B < nat sz"
          using tb by simp
        then have "lastLen ?B (nat sz - ?B) = lastLen ?B (nat sz)"
          using "1.prems"(2) by (rule lastLen_large)
        then show ?thesis
          using True tb by (simp add: nat_diff_distrib)
      next
        case f: False
        then have "nat sz = ?B"
          using tb False \<open>0 < sz\<close> by simp
        then show ?thesis
          using f tb "1.prems"(2) by (simp add: lastLen_def)
      qed
    qed
    have dd: "drop (nat (sz - int toread)) (drop toread r) = drop (nat sz) r"
      using tr \<open>0 < sz\<close> by (simp add: nat_diff_distrib)
    have nn: "n + int toread + int (nat (sz - int toread)) = n + int (nat sz)"
      using tr \<open>0 < sz\<close> by simp
    have ll2: "(if int toread < sz then lastLen ?B (nat (sz - int toread)) else toread) = lastLen ?B (nat sz)"
      using ll by simp
    have ll_a: "int toread < sz \<Longrightarrow> lastLen ?B (nat (sz - int toread)) = lastLen ?B (nat sz)"
      using ll2 by simp
    have ll_b: "\<not> int toread < sz \<Longrightarrow> toread = lastLen ?B (nat sz)"
      using ll2 by simp
    show ?thesis
      unfolding step ih
      using ch dd nn True ll_a ll_b by simp
  qed
qed

lemma lastLen_dvd:
  assumes "p dvd B" and "0 < B" and "0 < m"
  shows "(lastLen B m mod p = 0) = (p dvd m)"
proof (cases "m mod B = 0")
  case True
  then have "B dvd m"
    by (simp add: dvd_eq_mod_eq_0)
  then have "p dvd m"
    using assms(1) dvd_trans by blast
  then show ?thesis
    using True assms(1) by (simp add: lastLen_def dvd_eq_mod_eq_0)
next
  case False
  have "m mod B mod p = m mod p"
    using assms(1) by (rule mod_mod_cancel)
  then show ?thesis
    using False by (simp add: lastLen_def dvd_eq_mod_eq_0)
qed

lemma bulkWriteRest_success:
  assumes "outq (bus d) = []" and "0 < rwBufSize (pkg d)" and "nat sz \<le> length r"
    and "sendMaxPacketSize d = p" and "0 < p" and "p dvd rwBufSize (pkg d)"
  shows "bulkWriteRest d r sz n err =
    (n + int (nat sz), (if 0 < sz then None else err),
     d\<lparr>bus := (bus d)\<lparr>sent := sent (bus d) @ chunks (rwBufSize (pkg d)) (take (nat sz) r)
        @ (if p dvd nat sz then [[]] else [])\<rparr>\<rparr>,
     drop (nat sz) r)"
proof -
  let ?B = "rwBufSize (pkg d)"
  let ?d2 = "d\<lparr>bus := (bus d)\<lparr>sent := sent (bus d) @ chunks ?B (take (nat sz) r)\<rparr>\<rparr>"
  let ?lt = "if 0 < sz then lastLen ?B (nat sz) else 0"
  have l: "bulkWriteLoop d r sz n 0 err =
      (?d2, drop (nat sz) r, n + int (nat sz), ?lt, (if 0 < sz then None else err))"
    using assms(1,2,3) by (rule bulkWriteLoop_success)
  have z: "(?lt mod p = 0) = (p dvd nat sz)"
  proof (cases "0 < sz")
    case True
    then show ?thesis
      using lastLen_dvd [OF assms(6) assms(2), of "nat sz"] by simp
  next
    case False
    then show ?thesis
      by simp
  qed
  have o: "outq (bus ?d2) = []"
    using assms(1) by simp
  show ?thesis
  proof (cases "p dvd nat sz")
    case True
    then have "?lt mod p = 0"
      using z by simp
    then show ?thesis
      using l True assms(4,5) BulkTransferOut_ok [OF o, of "[]"]
      by (simp add: bulkWriteRest_def Let_def)
  next
    case False
    then have "?lt mod p \<noteq> 0"
      using z by simp
    then show ?thesis
      using l False assms(4,5)
      by (simp add: bulkWriteRest_def Let_def)
  qed
qed

lemma bulkWrite_success:
  assumes "sendMaxPacketSize d = p" and "12 \<le> p"
    and "0 < rwBufSize (pkg d)" and "p dvd rwBufSize (pkg d)"
    and "outq (bus d) = []"
    and "0 \<le> sz" and "nat sz \<le> length r"
    and "cp = (if SeparateHeader d then 0 else min (p - 12) (nat sz))"
  shows "\<exists>hd1 d'. bulkWrite d (Some hd0) r sz = (sz, None, d', drop (nat sz) r)
           \<and> sent (bus d') = sent (bus d) @ [writeHeader hd1 @ take cp r]
                @ chunks (rwBufSize (pkg d)) (take (nat sz - cp) (drop cp r))
                @ (if p dvd (nat sz - cp) then [[]] else [])"
proof -
  define hd1 where "hd1 = hd0\<lparr>Length := (if sz + int usbHdrLen > 0xFFFFFFFF then 0xFFFFFFFF
                                     else word_of_int (sz + int usbHdrLen))\<rparr>"
  define cpSize where "cpSize = (if int (if SeparateHeader d then usbHdrLen else p) - int usbHdrLen > sz
      then sz else int (if SeparateHeader d then usbHdrLen else p) - int usbHdrLen)"
  let ?d1 = "d\<lparr>bus := (bus d)\<lparr>sent := sent (bus d) @ [writeHeader hd1 @ take cp r]\<rparr>\<rparr>"
  have c: "cpSize = int cp"
    using assms(2,6,8) by (auto simp add: cpSize_def usbHdrLen_def min_def)
  have cn: "CopyN r cpSize = (take cp r, drop cp r)"
    using c by (auto simp add: CopyN_def)
  have le: "cp \<le> nat sz"
    using assms(8) by simp
  have t: "BulkTransferOut d (writeHeader hd1 @ take cp r) = (length (writeHeader hd1 @ take cp r), None, ?d1)"
    using assms(5) by (rule BulkTransferOut_ok)
  have ns: "(p < usbHdrLen) = False"
    using assms(2) by (simp add: usbHdrLen_def)
  have b: "bulkWrite d (Some hd0) r sz = bulkWriteRest ?d1 (drop cp r) (sz - cpSize) cpSize None"
    using cn t assms(1)
    by (simp add: bulkWrite_def Let_def ns hd1_def [symmetric] cpSize_def [symmetric])
  have r: "bulkWriteRest ?d1 (drop cp r) (sz - cpSize) cpSize None =
      (cpSize + int (nat (sz - cpSize)), (if 0 < sz - cpSize then None else None),
       ?d1\<lparr>bus := (bus ?d1)\<lparr>sent := sent (bus ?d1)
          @ chunks (rwBufSize (pkg ?d1)) (take (nat (sz - cpSize)) (drop cp r))
          @ (if p dvd nat (sz - cpSize) then [[]] else [])\<rparr>\<rparr>,
       drop (nat (sz - cpSize)) (drop cp r))"
  proof (rule bulkWriteRest_success)
    show "outq (bus ?d1) = []"
      using assms(5) by simp
    show "0 < rwBufSize (pkg ?d1)"
      using assms(3) by simp
    show "nat (sz - cpSize) \<le> length (drop cp r)"
      using assms(7) c by simp
    show "sendMaxPacketSize ?d1 = p"
      using assms(1) by (simp add: sendMaxPacketSize_def)
    show "0 < p"
      using assms(2) by simp
    show "p dvd rwBufSize (pkg ?d1)"
      using assms(4) by simp
  qed
  have n1: "nat (sz - cpSize) = nat sz - cp"
    using c by (simp add: nat_diff_distrib)
  have n2: "cpSize + int (nat (sz - cpSize)) = sz"
    using c le assms(6) by simp
  have n3: "drop (nat sz - cp) (drop cp r) = drop (nat sz) r"
    using le by simp
  let ?d' = "?d1\<lparr>bus := (bus ?d1)\<lparr>sent := sent (bus ?d1)
          @ chunks (rwBufSize (pkg ?d1)) (take (nat sz - cp) (drop cp r))
          @ (if p dvd (nat sz - cp) then [[]] else [])\<rparr>\<rparr>"
  have "bulkWrite d (Some hd0) r sz = (sz, None, ?d', drop (nat sz) r)"
    unfolding b r n1 using n2 n3 by (simp add: n1)
  moreover have "sent (bus ?d') = sent (bus d) @ [writeHeader hd1 @ take cp r]
                @ chunks (rwBufSize (pkg d)) (take (nat sz - cp) (drop cp r))
                @ (if p dvd (nat sz - cp) then [[]] else [])"
    by simp
  ultimately show ?thesis
    by blast
qed

section \<open>C6: the zero-length packet after a data-out phase\<close>

text \<open>
  C6, as the code has it. Let the send packet size p be at least 12 and divide the size
  of the transfer buffer, let every transfer succeed and the reader hold the payload.
  \<open>bulkWrite\<close> sends the DATA header together with the first cp bytes of the payload,
  where cp is 0 when the header goes in a write of its own and otherwise what fits
  into the first packet (p - 12 bytes, or the whole payload); then the other
  size - cp bytes in transfers of at most one buffer; then one zero-length packet
  exactly when size - cp is a multiple of p. With the header in a write of its
  own that is whenever the payload size is a multiple of the packet size.
\<close>

theorem bulkWrite_zero_length_packet:
  assumes "sendMaxPacketSize d = p" and "12 \<le> p"
    and "0 < rwBufSize (pkg d)" and "p dvd rwBufSize (pkg d)"
    and "outq (bus d) = []"
    and "0 \<le> sz" and "nat sz \<le> length r"
    and "cp = (if SeparateHeader d then 0 else min (p - 12) (nat sz))"
  shows "\<exists>hd1 d'. bulkWrite d (Some hd0) r sz = (sz, None, d', drop (nat sz) r)
           \<and> sent (bus d') = sent (bus d) @ [writeHeader hd1 @ take cp r]
                @ chunks (rwBufSize (pkg d)) (take (nat sz - cp) (drop cp r))
                @ (if p dvd (nat sz - cp) then [[]] else [])"
  using assms by (rule bulkWrite_success)

theorem bulkWrite_zero_length_packet_witness:
  "sendMaxPacketSize separateDevice = 32 \<and> (12::nat) \<le> 32
   \<and> 0 < rwBufSize (pkg separateDevice) \<and> 32 dvd rwBufSize (pkg separateDevice)
   \<and> outq (bus separateDevice) = []
   \<and> (0::int) \<le> 32 \<and> nat 32 \<le> length (replicate 32 (0::byte))
   \<and> (\<exists>hd1 d'. bulkWrite separateDevice (Some (dataHeader 32)) (replicate 32 0) 32 = (32, None, d', [])
          \<and> sent (bus d') = [writeHeader hd1, replicate 32 0, []])"
proof -
  have a: "sendMaxPacketSize separateDevice = 32" "(12::nat) \<le> 32"
    "0 < rwBufSize (pkg separateDevice)" "32 dvd rwBufSize (pkg separateDevice)"
    "outq (bus separateDevice) = []" "(0::int) \<le> 32" "nat 32 \<le> length (replicate 32 (0::byte))"
    "0 = (if SeparateHeader separateDevice then 0 else min (32 - 12) (nat 32))"
    by code_simp+
  have v: "sent (bus separateDevice) = []" "rwBufSize (pkg separateDevice) = 64"
    by code_simp+
  have ch: "chunks 64 (replicate 32 (0::byte)) = [replicate 32 0]"
    by code_simp
  show ?thesis
    using bulkWrite_zero_length_packet [OF a, of "dataHeader 32"] a(1-7) v ch
    by simp
qed

lemma length_payload [simp]: "length (payload n) = n"
  by (simp add: payload_def)

lemma take_drop_payload [simp]: "take k (drop j (payload n)) = payload (min k (n - j))"
  by (simp add: payload_def)

lemma take_payload [simp]: "take k (payload n) = payload (min k n)"
  by (simp add: payload_def min.commute)

lemma payload_neq_Nil [simp]: "0 < n \<Longrightarrow> payload n \<noteq> []"
  by (simp add: payload_def)

text \<open>
  The claim as written fails on its own example: with the header in the first packet
  (the default), a payload of 512 bytes at packet size 512 goes out as one transfer of
  512 bytes and one of 12 bytes, and no zero-length packet follows.
\<close>

theorem bulkWrite_no_zero_length_packet:
  "\<not> SeparateHeader device512
   \<and> sendMaxPacketSize device512 = 512
   \<and> length (payload 512) mod sendMaxPacketSize device512 = 0
   \<and> fst (snd (bulkWrite device512 (Some (dataHeader 512)) (payload 512) 512)) = None
   \<and> map length (sent (bus (fst (snd (snd (bulkWrite device512 (Some (dataHeader 512)) (payload 512) 512))))))
       = [512, 12]"
proof -
  let ?r = "payload 512"
  have a: "sendMaxPacketSize device512 = 512" "(12::nat) \<le> 512"
    "0 < rwBufSize (pkg device512)" "512 dvd rwBufSize (pkg device512)"
    "outq (bus device512) = []" "(0::int) \<le> 512"
    by (simp_all add: device512_def exampleDevice_def exampleBus_def exampleConsts_def sendMaxPacketSize_def)
  have l: "nat 512 \<le> length ?r"
    by simp
  have c: "500 = (if SeparateHeader device512 then 0 else min (512 - 12) (nat 512))"
    by (simp add: device512_def exampleDevice_def)
  have v: "\<not> SeparateHeader device512" "sent (bus device512) = []" "rwBufSize (pkg device512) = 16384"
    by (simp_all add: device512_def exampleDevice_def exampleBus_def exampleConsts_def)
  have "\<exists>hd1 d'. bulkWrite device512 (Some (dataHeader 512)) ?r 512 = (512, None, d', drop (nat 512) ?r)
           \<and> sent (bus d') = sent (bus device512) @ [writeHeader hd1 @ take 500 ?r]
                @ chunks (rwBufSize (pkg device512)) (take (nat 512 - 500) (drop 500 ?r))
                @ (if (512::nat) dvd (nat 512 - 500) then [[]] else [])"
    by (rule bulkWrite_success [OF a l c])
  then obtain hd1 d' where b: "bulkWrite device512 (Some (dataHeader 512)) ?r 512 = (512, None, d', drop (nat 512) ?r)"
    and s: "sent (bus d') = sent (bus device512) @ [writeHeader hd1 @ take 500 ?r]
                @ chunks (rwBufSize (pkg device512)) (take (nat 512 - 500) (drop 500 ?r))
                @ (if (512::nat) dvd (nat 512 - 500) then [[]] else [])"
    by (elim exE conjE)
  have ch: "chunks 16384 (payload 12) = [payload 12]"
    by (simp add: chunks_step)
  have "sent (bus d') = [writeHeader hd1 @ payload 500, payload 12]"
    unfolding s v using ch by simp
  then have m: "map length (sent (bus d')) = [512, 12]"
    by simp
  have f: "fst (snd (bulkWrite device512 (Some (dataHeader 512)) ?r 512)) = None"
    "fst (snd (snd (bulkWrite device512 (Some (dataHeader 512)) ?r 512))) = d'"
    unfolding b by simp_all
  show ?thesis
    unfolding f using v(1) a(1) m by simp
qed


section \<open>The data-in phase\<close>

lemma exchange_sendPhase:
  assumes "sendPhase d req src ws = Inr (d2, req0)"
    and "fetchPacket d2 = (Inr (hdr, rest), d3)"
  shows "exchange d req dest src ws =
    (case dataInPhase d3 dest hdr rest (fetchMaxPacketSize d2) of
       Inl (e, d4, dest') \<Rightarrow> Inl (e, d4, req0, dest')
     | Inr (hdr', rest', u, d4, dest') \<Rightarrow> Inr (hdr', rest', u, d4, req0, dest'))"
  using assms
  by (auto simp add: sendPhase_def exchange_def split: prod.splits option.splits)

lemma sendPhase_fields:
  assumes "sendPhase d req src ws = Inr (d2, req0)"
  shows "Code req0 = Code req" and "h d2 = h d" and "pkg d2 = pkg d"
    and "events (bus d2) = events (bus d)"
proof -
  obtain d0 r0 where a: "assignIDs d req = (d0, r0)"
    by (metis prod.exhaust)
  have f0: "Code r0 = Code req" "h d0 = h d" "pkg d0 = pkg d" "events (bus d0) = events (bus d)"
    using a by (auto simp add: assignIDs_def split: option.splits)
  obtain e1 d1 where s: "sendReq d0 r0 = (e1, d1)"
    by (metis prod.exhaust)
  have c1: "sameConn d0 d1"
    using sendReq_sameConn [of d0 r0] s by simp
  obtain e2 d2' where o: "dataOutPhase d1 r0 src ws = (e2, d2')"
    by (metis prod.exhaust)
  have c2: "sameConn d1 d2'"
    using dataOutPhase_sameConn [of d1 r0 src ws] o by simp
  have e: "req0 = r0 \<and> d2 = d2'"
    using assms a s o by (auto simp add: sendPhase_def split: option.splits)
  have c: "sameConn d0 d2"
    using c1 c2 e sameConn_trans by blast
  show "Code req0 = Code req" using e f0 by simp
  show "h d2 = h d" using sameConn_fields(1) [OF c] f0 by simp
  show "pkg d2 = pkg d" using sameConn_fields(3) [OF c] f0 by simp
  show "events (bus d2) = events (bus d)" using sameConn_fields(6) [OF c] f0 by simp
qed

lemma BulkTransferIn_Inr:
  assumes "inq (bus d) = Inr bs # q"
  shows "BulkTransferIn d len = (take len bs, None, d\<lparr>bus := (bus d)\<lparr>inq := q\<rparr>\<rparr>)"
  using assms by (simp add: BulkTransferIn_def)

text \<open>
  The loop of \<open>bulkRead\<close> on a device that delivers full buffers and then a short
  one, with a writer that discards: it consumes exactly these transfers.
\<close>

lemma bulkReadLoop_drain:
  assumes "inq (bus d) = map Inr full @ Inr lastp # q"
    and "\<forall>c \<in> set full. length c = rwBufSize (pkg d)"
    and "length lastp < rwBufSize (pkg d)"
  shows "bulkReadLoop d NullWriter n =
    (d\<lparr>bus := (bus d)\<lparr>inq := q\<rparr>\<rparr>, NullWriter, n + int (length (concat full)) + int (length lastp),
     length lastp, None)"
  using assms
proof (induction full arbitrary: d n)
  case Nil
  have t: "BulkTransferIn d (rwBufSize (pkg d)) = (lastp, None, d\<lparr>bus := (bus d)\<lparr>inq := q\<rparr>\<rparr>)"
    using BulkTransferIn_Inr [of d lastp q] Nil.prems(1,3) by simp
  show ?case
    using t Nil.prems(3)
    by (subst bulkReadLoop.simps) (simp add: Let_def)
next
  case (Cons c full)
  let ?d' = "d\<lparr>bus := (bus d)\<lparr>inq := map Inr full @ Inr lastp # q\<rparr>\<rparr>"
  have lc: "length c = rwBufSize (pkg d)"
    using Cons.prems(2) by simp
  have pos: "0 < length c"
    using lc Cons.prems(3) by simp
  have t: "BulkTransferIn d (rwBufSize (pkg d)) = (c, None, ?d')"
    using BulkTransferIn_Inr [of d c "map Inr full @ Inr lastp # q"] Cons.prems(1) lc by simp
  have step: "bulkReadLoop d NullWriter n = bulkReadLoop ?d' NullWriter (n + int (length c))"
    using t lc pos
    by (subst bulkReadLoop.simps) (simp add: Let_def)
  have ih: "bulkReadLoop ?d' NullWriter (n + int (length c)) =
      (?d'\<lparr>bus := (bus ?d')\<lparr>inq := q\<rparr>\<rparr>, NullWriter,
       n + int (length c) + int (length (concat full)) + int (length lastp), length lastp, None)"
    using Cons.prems(2,3) by (intro Cons.IH) simp_all
  show ?case
    unfolding step ih by simp
qed

lemma BulkTransferIn_inq: "inq (bus (snd (snd (BulkTransferIn d len)))) = tl (inq (bus d))"
  by (simp add: BulkTransferIn_def split: list.splits sum.splits)

lemma fetchPacket_inq: "inq (bus (snd (fetchPacket d))) = tl (inq (bus d))"
proof -
  obtain bs e d' where t: "BulkTransferIn d (fetchMaxPacketSize d) = (bs, e, d')"
    by (metis prod_cases3)
  have "snd (fetchPacket d) = d'"
    using t by (simp add: fetchPacket_def split: option.splits sum.splits prod.splits)
  then show ?thesis
    using BulkTransferIn_inq [of d "fetchMaxPacketSize d"] t by simp
qed

lemma finishTransaction_unexpected:
  "fst (finishTransaction d req rep hdr rest True) = Some (SyncError (UnexpectedData (Code req)))"
proof -
  obtain err rep1 where dr: "decodeRep d hdr rest rep = (err, rep1)"
    by (metis prod.exhaust)
  have "\<not> panicked (fst (finishTransaction d req rep hdr rest True))"
    by (rule finishTransaction_no_panic)
  then have "\<not> panicked err"
    using dr by (auto simp add: finishTransaction_def split: if_splits)
  then show ?thesis
    using dr by (simp add: finishTransaction_def)
qed

text \<open>
  The data-in phase without a sink, when the first packet did not fill the fetch
  packet: one more packet is fetched for the response.
\<close>

lemma dataInPhase_unexpected_short:
  assumes "Type hdr = USB_CONTAINER_DATA" and "length rest + usbHdrLen \<noteq> fps"
  shows "\<exists>hdr' rest'. dataInPhase d None hdr rest fps = Inr (hdr', rest', True, snd (fetchPacket d), None)"
proof (cases "fetchPacket d")
  case (Pair r d')
  then show ?thesis
    using assms
    by (cases r) (auto simp add: dataInPhase_def Let_def destAfter_def split: prod.splits)
qed

text \<open>
  The same when the first packet was full and the device goes on with full buffers, a
  short one and one more packet: all of them are read and nothing is kept.
\<close>

lemma dataInPhase_unexpected_full:
  assumes "Type hdr = USB_CONTAINER_DATA" and "length rest + usbHdrLen = fps"
    and "fps = fetchMaxPacketSize d"
    and "inq (bus d) = map Inr full @ Inr lastp # Inr resp # q"
    and "\<forall>c \<in> set full. length c = rwBufSize (pkg d)"
    and "length lastp < rwBufSize (pkg d)"
  shows "\<exists>hdr' rest' d' k. dataInPhase d None hdr rest fps = Inr (hdr', rest', True, d', None)
           \<and> inq (bus d') = drop k (Inr resp # q)"
proof -
  let ?B = "rwBufSize (pkg d)"
  let ?dL = "d\<lparr>bus := (bus d)\<lparr>inq := Inr resp # q\<rparr>\<rparr>"
  let ?dE = "d\<lparr>bus := (bus d)\<lparr>inq := q\<rparr>\<rparr>"
  let ?n = "0 + int (length (concat full)) + int (length lastp)"
  have p: "fetchMaxPacketSize d \<noteq> 0"
    using assms(2,3) by (simp add: usbHdrLen_def)
  have w: "snd (snd (Write NullWriter rest)) = NullWriter"
    by simp
  have l: "bulkReadLoop d NullWriter 0 = (?dL, NullWriter, ?n, length lastp, None)"
    using assms(4,5,6) by (rule bulkReadLoop_drain)
  have pL: "fetchMaxPacketSize ?dL = fetchMaxPacketSize d" "rwBufSize (pkg ?dL) = ?B"
    by (simp_all add: fetchMaxPacketSize_def)
  have tE: "BulkTransferIn ?dL ?B = (take ?B resp, None, ?dE)"
    using BulkTransferIn_Inr [of ?dL resp q ?B] by simp
  show ?thesis
  proof (cases "length lastp mod fetchMaxPacketSize d = 0")
    case False
    have b: "bulkRead d NullWriter = (?n, [], None, ?dL, NullWriter)"
      using l p pL False by (simp add: bulkRead_def Let_def)
    have "\<exists>hdr' rest'. dataInPhase d None hdr rest fps = Inr (hdr', rest', True, snd (fetchPacket ?dL), None)"
    proof (cases "fetchPacket ?dL")
      case (Pair r d')
      then show ?thesis
        using assms(1,2) b
        by (cases r) (auto simp add: dataInPhase_def Let_def destAfter_def split: prod.splits)
    qed
    moreover have "inq (bus (snd (fetchPacket ?dL))) = drop 1 (Inr resp # q)"
      using fetchPacket_inq [of ?dL] by simp
    ultimately show ?thesis
      by blast
  next
    case True
    have b: "bulkRead d NullWriter = (?n, take ?B resp, None, ?dE, NullWriter)"
      using l p pL True tE by (simp add: bulkRead_def Let_def)
    show ?thesis
    proof (cases "take ?B resp = []")
      case False
      have "\<exists>hdr' rest'. dataInPhase d None hdr rest fps = Inr (hdr', rest', True, ?dE, None)"
        using assms(1,2) b False
        by (cases "readHeader (take ?B resp)")
          (auto simp add: dataInPhase_def Let_def destAfter_def split: prod.splits)
      moreover have "inq (bus ?dE) = drop 1 (Inr resp # q)"
        by simp
      ultimately show ?thesis
        by blast
    next
      case e: True
      have "\<exists>hdr' rest'. dataInPhase d None hdr rest fps = Inr (hdr', rest', True, snd (fetchPacket ?dE), None)"
      proof (cases "fetchPacket ?dE")
        case (Pair r d')
        then show ?thesis
          using assms(1,2) b e
          by (cases r) (auto simp add: dataInPhase_def Let_def destAfter_def split: prod.splits)
      qed
      moreover have "inq (bus (snd (fetchPacket ?dE))) = drop 2 (Inr resp # q)"
        using fetchPacket_inq [of ?dE] by (simp add: drop_Suc)
      ultimately show ?thesis
        by blast
    qed
  qed
qed

section \<open>C7: a data phase that was not asked for\<close>

text \<open>
  C7. Let a transaction be called without a sink, let the request go out, and let the
  first packet fetched be a DATA packet. When that packet fills the fetch packet size,
  let the device go on with full buffers, a short transfer and one more packet, as it
  does when it sends the rest of a data phase and then answers. Then
  \<open>runTransaction\<close> reads all of these data transfers, keeps none of their bytes
  (the caller's sink stays nil), and returns the protocol-desync error for unexpected
  data; \<open>RunTransaction\<close> closes the connection on it.
\<close>

theorem runTransaction_unexpected_data:
  assumes "h d"
    and "sendPhase d req src ws = Inr (d2, req0)"
    and "fetchPacket d2 = (Inr (hdr, rest), d3)"
    and "Type hdr = USB_CONTAINER_DATA"
    and "length rest + 12 = fetchMaxPacketSize d2 \<longrightarrow>
           inq (bus d3) = map Inr full @ Inr lastp # Inr resp # q
           \<and> (\<forall>c \<in> set full. length c = rwBufSize (pkg d))
           \<and> length lastp < rwBufSize (pkg d)"
  shows "errOf (runTransaction d req rep None src ws) = Some (SyncError (UnexpectedData (Code req)))
       \<and> destOf (runTransaction d req rep None src ws) = None
       \<and> (length rest + 12 = fetchMaxPacketSize d2 \<longrightarrow>
            (\<exists>k. inq (bus (devOf (runTransaction d req rep None src ws))) = drop k (Inr resp # q)))
       \<and> errOf (RunTransaction d req rep None src ws) = Some (SyncError (UnexpectedData (Code req)))
       \<and> \<not> h (devOf (RunTransaction d req rep None src ws))"
proof -
  let ?fps = "fetchMaxPacketSize d2"
  have c3: "sameConn d2 d3"
    using fetchPacket_sameConn [of d2] assms(3) by simp
  have f3: "fetchMaxPacketSize d3 = ?fps" "pkg d3 = pkg d"
    using sameConn_fields(3,7) [OF c3] sendPhase_fields(3) [OF assms(2)] by simp_all
  have "\<exists>hdr' rest' d' k. dataInPhase d3 None hdr rest ?fps = Inr (hdr', rest', True, d', None)
           \<and> (length rest + 12 = ?fps \<longrightarrow> inq (bus d') = drop k (Inr resp # q))"
  proof (cases "length rest + 12 = ?fps")
    case True
    have i1: "inq (bus d3) = map Inr full @ Inr lastp # Inr resp # q"
      and i2: "\<forall>c \<in> set full. length c = rwBufSize (pkg d3)"
      and i3: "length lastp < rwBufSize (pkg d3)"
      using assms(5) True f3 by simp_all
    have i4: "length rest + usbHdrLen = ?fps" "?fps = fetchMaxPacketSize d3"
      using True f3 by (simp_all add: usbHdrLen_def)
    have "\<exists>hdr' rest' d' k. dataInPhase d3 None hdr rest ?fps = Inr (hdr', rest', True, d', None)
           \<and> inq (bus d') = drop k (Inr resp # q)"
      using assms(4) i4 i1 i2 i3 by (rule dataInPhase_unexpected_full)
    then show ?thesis
      by blast
  next
    case False
    then have "\<exists>hdr' rest'. dataInPhase d3 None hdr rest ?fps = Inr (hdr', rest', True, snd (fetchPacket d3), None)"
      using assms(4) by (intro dataInPhase_unexpected_short) (simp_all add: usbHdrLen_def)
    then show ?thesis
      using False by blast
  qed
  then obtain hdr' rest' d' k where di: "dataInPhase d3 None hdr rest ?fps = Inr (hdr', rest', True, d', None)"
    and dr: "length rest + 12 = ?fps \<longrightarrow> inq (bus d') = drop k (Inr resp # q)"
    by blast
  have ex: "exchange d req None src ws = Inr (hdr', rest', True, d', req0, None)"
    using exchange_sendPhase [OF assms(2) assms(3), of None] di by simp
  let ?e = "SyncError (UnexpectedData (Code req))"
  let ?f = "finishTransaction d' req0 rep hdr' rest' True"
  have fe: "fst ?f = Some ?e"
    using finishTransaction_unexpected [of d' req0 rep hdr' rest'] sendPhase_fields(1) [OF assms(2)]
    by simp
  have r: "runTransaction d req rep None src ws = (Some ?e, d', req0, snd ?f, None)"
    using runTransaction_Inr [OF ex, of rep] fe by simp
  have hd: "h d'"
    using assms(1) exchange_Inr_session(1) [OF ex] by simp
  have R: "RunTransaction d req rep None src ws = (Some ?e, snd (Close d'), req0, snd ?f, None)"
    using assms(1) r by (rule RunTransaction_fatal) simp
  show ?thesis
    unfolding r R using dr Close_closes(2) [OF hd]
    by (auto simp add: errOf_def devOf_def destOf_def)
qed

theorem runTransaction_unexpected_data_witness:
  "h unexpectedDevice
   \<and> fst (fetchPacket (fst (projr (sendPhase unexpectedDevice exampleReq None 0))))
       = Inr (dataHeader30, payload 20)
   \<and> Type dataHeader30 = USB_CONTAINER_DATA
   \<and> length (payload 20) + 12 = fetchMaxPacketSize unexpectedDevice
   \<and> errOf (runTransaction unexpectedDevice exampleReq zeroContainer None None 0)
       = Some (SyncError (UnexpectedData 0x1002))
   \<and> destOf (runTransaction unexpectedDevice exampleReq zeroContainer None None 0) = None
   \<and> inq (bus (devOf (runTransaction unexpectedDevice exampleReq zeroContainer None None 0))) = []
   \<and> \<not> h (devOf (RunTransaction unexpectedDevice exampleReq zeroContainer None None 0))"
proof -
  let ?S = "sendPhase unexpectedDevice exampleReq None 0"
  let ?d2 = "fst (projr ?S)"
  let ?d3 = "snd (fetchPacket ?d2)"
  have a: "h unexpectedDevice"
    by code_simp
  have s: "?S = Inr (?d2, snd (projr ?S))"
    by code_simp
  have f: "fetchPacket ?d2 = (Inr (dataHeader30, payload 20), ?d3)"
    by code_simp
  have t: "Type dataHeader30 = USB_CONTAINER_DATA"
    by code_simp
  have i: "length (payload 20) + 12 = fetchMaxPacketSize ?d2 \<longrightarrow>
           inq (bus ?d3) = map Inr [] @ Inr (payload 10) # Inr (writeHeader okResponse) # []
           \<and> (\<forall>c \<in> set ([] :: byte list list). length c = rwBufSize (pkg unexpectedDevice))
           \<and> length (payload 10) < rwBufSize (pkg unexpectedDevice)"
    by code_simp
  have v: "Code exampleReq = 0x1002"
    by code_simp
  have v2: "length (payload 20) + 12 = fetchMaxPacketSize unexpectedDevice"
    by code_simp
  have v3: "inq (bus (devOf (runTransaction unexpectedDevice exampleReq zeroContainer None None 0))) = []"
    by code_simp
  have f2: "fst (fetchPacket ?d2) = Inr (dataHeader30, payload 20)"
    by code_simp
  show ?thesis
    using runTransaction_unexpected_data [OF a s f t i, of zeroContainer] a f2 t v v2 v3
    by simp
qed

section \<open>C2: the extra read after a data-in phase\<close>

text \<open>
  C2 on two concrete devices. Both send 52 bytes of data whose last transfer is exactly
  one packet, so \<open>bulkRead\<close> makes one extra read. Where that read is empty, the
  response is fetched by a further read and decoded with its parameter. Where that read
  delivers the response, no further read is made and the header is decoded from these
  bytes, but the parameter is read from the start of the packet, where the header is:
  the response gets the header's length word, 16, in place of 0xCAFEBABE.
\<close>

theorem runTransaction_reused_packet_parameters:
  "Uint32 (drop 12 paramResponse) = Some 0xCAFEBABE
   \<and> errOf (runTransaction ackDevice exampleReq zeroContainer (Some (BufWriter [] None)) None 0) = None
   \<and> Param (repOf (runTransaction ackDevice exampleReq zeroContainer (Some (BufWriter [] None)) None 0))
       = [0xCAFEBABE]
   \<and> inq (bus (devOf (runTransaction ackDevice exampleReq zeroContainer (Some (BufWriter [] None)) None 0)))
       = []
   \<and> errOf (runTransaction quirkDevice exampleReq zeroContainer (Some (BufWriter [] None)) None 0) = None
   \<and> Code (repOf (runTransaction quirkDevice exampleReq zeroContainer (Some (BufWriter [] None)) None 0))
       = 0x2001
   \<and> TransactionID (repOf (runTransaction quirkDevice exampleReq zeroContainer (Some (BufWriter [] None)) None 0))
       = 7
   \<and> Param (repOf (runTransaction quirkDevice exampleReq zeroContainer (Some (BufWriter [] None)) None 0))
       = [16]
   \<and> inq (bus (devOf (runTransaction quirkDevice exampleReq zeroContainer (Some (BufWriter [] None)) None 0)))
       = []
   \<and> destOf (runTransaction quirkDevice exampleReq zeroContainer (Some (BufWriter [] None)) None 0)
       = Some (BufWriter (payload 52) None)"
  by code_simp

end
